theory Spec2Isabelle
  imports Main "HOL-Library.AList"
begin

section \<open>Data model of the A2A transport (transport/a2a/types.ts, core/types.ts)\<close>

text \<open>
  \<^verbatim>\<open>TaskStatus\<close> of core/types.ts: the nine string literals of the union type.
\<close>

datatype TaskStatus =
    Completed | Working | Submitted | InputRequired | Failed
  | Canceled | Rejected | AuthRequired | Unknown

text \<open>
  Values of TypeScript type \<^verbatim>\<open>unknown\<close>, and \<^verbatim>\<open>Record<string, unknown>\<close> as a list of
  key/value pairs in insertion order.
\<close>

datatype json =
    JUndefined | JNull | JBool bool | JNum int | JStr string
  | JArr "json list" | JObj "(string \<times> json) list"

type_synonym jsrecord = "(string \<times> json) list"

text \<open>JavaScript truthiness, as used by \<^verbatim>\<open>a || b\<close> and \<^verbatim>\<open>if (a)\<close>.\<close>

fun truthy :: "json \<Rightarrow> bool" where
  "truthy JUndefined = False"
| "truthy JNull = False"
| "truthy (JBool b) = b"
| "truthy (JNum n) = (n \<noteq> 0)"
| "truthy (JStr s) = (s \<noteq> [])"
| "truthy (JArr xs) = True"
| "truthy (JObj kvs) = True"

text \<open>
  Object spread \<^verbatim>\<open>{ ...a, ...b }\<close>: the keys of \<open>b\<close> are written onto \<open>a\<close> one after
  the other; a key already present keeps its place and takes the new value, a new key
  is appended. (JavaScript enumerates keys that are array indices, such as \<open>1\<close>,
  before all others; the list keeps them where they were written. The order of the
  keys is used by no property: the properties read a record through \<open>map_of\<close>.)
\<close>

definition spread :: "jsrecord \<Rightarrow> jsrecord \<Rightarrow> jsrecord" where
  "spread a b = fold (\<lambda>(k, v). AList.update k v) b a"

text \<open>Property read \<^verbatim>\<open>o.k\<close>: \<^verbatim>\<open>undefined\<close> when the key is absent.\<close>

definition getprop :: "jsrecord \<Rightarrow> string \<Rightarrow> json" where
  "getprop r k = (case map_of r k of None \<Rightarrow> JUndefined | Some v \<Rightarrow> v)"

text \<open>\<^verbatim>\<open>MessagePart = TextPart | DataPart | FilePart\<close>.\<close>

record FileRef =
  uri :: string
  mimeType :: "string option"
  name :: "string option"

datatype MessagePart =
    TextPart string
  | DataPart jsrecord "string option"
  | FilePart FileRef

datatype Role = User | Agent

record A2aMessageMetadata =
  mm_timestamp :: "string option"
  message_id :: "string option"
  correlation_id :: "string option"

record A2aMessage =
  role :: Role
  parts :: "MessagePart list"
  metadata :: "A2aMessageMetadata option"

record A2aArtifactMetadata =
  artifact_id :: "string option"
  am_created_at :: "string option"

record A2aArtifact =
  art_name :: "string option"
  art_parts :: "MessagePart list"
  art_metadata :: "A2aArtifactMetadata option"

record A2aTaskStatus =
  state :: TaskStatus
  message :: "string option"
  progress :: "nat option"
  timestamp :: string

record A2aTaskMetadata =
  tm_skill :: "string option"
  tm_principal_id :: "string option"
  tm_context_id :: "string option"

record A2aTask =
  id :: string
  status :: A2aTaskStatus
  messages :: "A2aMessage list"
  artifacts :: "A2aArtifact list"
  created_at :: string
  updated_at :: string
  task_metadata :: A2aTaskMetadata

datatype A2aWebhookEvent =
  StatusChange | EvCompleted | EvFailed | EvInputRequired | ArtifactCreated

record A2aWebhookConfig =
  url :: string
  events :: "A2aWebhookEvent list option"

record A2aTaskRequestMetadata =
  rq_correlation_id :: "string option"
  rq_context_id :: "string option"
  rq_principal_id :: "string option"

record A2aTaskRequest =
  skill :: "string option"
  rq_parts :: "MessagePart list"
  rq_metadata :: "A2aTaskRequestMetadata option"
  webhook :: "A2aWebhookConfig option"

record A2aTaskResponse =
  task_id :: string
  rs_status :: A2aTaskStatus
  rs_messages :: "A2aMessage list option"
  rs_artifacts :: "A2aArtifact list option"

record A2aWebhookPayload =
  wp_task_id :: string
  wp_event :: A2aWebhookEvent
  wp_status :: A2aTaskStatus
  wp_timestamp :: string
  wp_data :: "jsrecord option"

text \<open>
  \<^verbatim>\<open>SseEvent\<close>: the event type with the payload that type carries
  (\<^verbatim>\<open>SseStatusEvent\<close>, \<^verbatim>\<open>SseMessageEvent\<close>, ...), and the timestamp.
\<close>

datatype SseData =
    StatusEv A2aTaskStatus
  | MessageEv A2aMessage
  | ArtifactEv A2aArtifact
  | ProgressEv nat "string option"
  | ErrorEv string string
  | CompleteEv A2aTaskResponse

datatype SseEventType = TStatus | TMessage | TArtifact | TProgress | TError | TComplete

record SseEvent =
  ev_data :: SseData
  ev_timestamp :: string

fun data_type :: "SseData \<Rightarrow> SseEventType" where
  "data_type (StatusEv _) = TStatus"
| "data_type (MessageEv _) = TMessage"
| "data_type (ArtifactEv _) = TArtifact"
| "data_type (ProgressEv _ _) = TProgress"
| "data_type (ErrorEv _ _) = TError"
| "data_type (CompleteEv _) = TComplete"

definition ev_type :: "SseEvent \<Rightarrow> SseEventType" where
  "ev_type e = data_type (ev_data e)"

record Principal =
  principal_id :: string
  principal_name :: string

record A2aSkillInvocation =
  inv_skill :: string
  inv_parameters :: jsrecord
  inv_context :: "string option"
  inv_files :: "FileRef list option"


section \<open>The Skill Invocation Parser (A2aServer.parseSkillInvocation)\<close>

text \<open>
  The body of the \<^verbatim>\<open>for (const part of request.parts)\<close> loop on the three local
  variables \<^verbatim>\<open>parameters\<close>, \<^verbatim>\<open>context\<close> and \<^verbatim>\<open>files\<close>: a text part assigns
  \<^verbatim>\<open>context\<close>, a data part spreads into \<^verbatim>\<open>parameters\<close>, a file part is pushed.
\<close>

fun parseLoop ::
  "MessagePart list \<Rightarrow> jsrecord \<times> string option \<times> FileRef list
     \<Rightarrow> jsrecord \<times> string option \<times> FileRef list" where
  "parseLoop [] acc = acc"
| "parseLoop (TextPart t # ps) (params, ctx, fs) = parseLoop ps (params, Some t, fs)"
| "parseLoop (DataPart d m # ps) (params, ctx, fs) = parseLoop ps (spread params d, ctx, fs)"
| "parseLoop (FilePart f # ps) (params, ctx, fs) = parseLoop ps (params, ctx, fs @ [f])"

text \<open>\<^verbatim>\<open>request.skill || 'default'\<close>: an absent or empty skill name is falsy.\<close>

definition skillOrDefault :: "string option \<Rightarrow> string" where
  "skillOrDefault sk = (case sk of None \<Rightarrow> ''default'' | Some n \<Rightarrow> if n = [] then ''default'' else n)"

definition parseSkillInvocation :: "A2aTaskRequest \<Rightarrow> A2aSkillInvocation" where
  "parseSkillInvocation request =
     (case parseLoop (rq_parts request) ([], None, []) of
        (params, ctx, fs) \<Rightarrow>
          \<lparr> inv_skill = skillOrDefault (skill request),
            inv_parameters = params,
            inv_context = ctx,
            inv_files = (if length fs > 0 then Some fs else None) \<rparr>)"

text \<open>What the claim speaks of: the text, data and file parts of a list, in list order.\<close>

fun textsOf :: "MessagePart list \<Rightarrow> string list" where
  "textsOf [] = []"
| "textsOf (TextPart t # ps) = t # textsOf ps"
| "textsOf (p # ps) = textsOf ps"

fun dataOf :: "MessagePart list \<Rightarrow> jsrecord list" where
  "dataOf [] = []"
| "dataOf (DataPart d m # ps) = d # dataOf ps"
| "dataOf (p # ps) = dataOf ps"

fun filesOf :: "MessagePart list \<Rightarrow> FileRef list" where
  "filesOf [] = []"
| "filesOf (FilePart f # ps) = f # filesOf ps"
| "filesOf (p # ps) = filesOf ps"

definition lastOpt :: "'a list \<Rightarrow> 'a option" where
  "lastOpt xs = (if xs = [] then None else Some (last xs))"

definition firstOpt :: "'a list \<Rightarrow> 'a option" where
  "firstOpt xs = (case xs of [] \<Rightarrow> None | x # _ \<Rightarrow> Some x)"


section \<open>Capability handlers and skill routing (A2aServer.executeSkill)\<close>

text \<open>
  What a \<^verbatim>\<open>throw\<close> can carry: an \<^verbatim>\<open>AdcpError\<close> (code, message), another \<^verbatim>\<open>Error\<close>
  (message), or a value that is not an \<^verbatim>\<open>Error\<close> at all.
\<close>

datatype thrown = AdcpError string string | OtherError string | NonError json

text \<open>
  A protocol handler method takes the parameters and the principal and either throws or
  returns a response: \<^verbatim>\<open>BaseResponse\<close> (optional status, message) and the fields of
  the particular response type. What a handler answers is taken to depend on its
  arguments only; the engine never looks at how the handler comes to its answer.
\<close>

record HandlerResponse =
  hr_status :: "TaskStatus option"
  hr_message :: string
  hr_fields :: jsrecord

type_synonym handler_fn = "jsrecord \<Rightarrow> Principal option \<Rightarrow> thrown + HandlerResponse"

record SignalsHandler =
  getSignals :: handler_fn
  activateSignal :: handler_fn

record MediaBuyHandler =
  getProducts :: handler_fn
  createMediaBuy :: handler_fn
  updateMediaBuy :: handler_fn
  getMediaBuyDelivery :: handler_fn
  syncCreatives :: handler_fn

record CreativeHandler =
  buildCreative :: handler_fn
  previewCreative :: handler_fn

record Handlers =
  signals :: "SignalsHandler option"
  mediaBuy :: "MediaBuyHandler option"
  creative :: "CreativeHandler option"

record SkillResult =
  sr_status :: TaskStatus
  sr_message :: string
  sr_data :: jsrecord
  sr_artifact :: "(string \<times> jsrecord) option"

text \<open>\<^verbatim>\<open>result.status || 'completed'\<close>.\<close>

definition statusOrCompleted :: "HandlerResponse \<Rightarrow> TaskStatus" where
  "statusOrCompleted r = (case hr_status r of None \<Rightarrow> Completed | Some st \<Rightarrow> st)"

text \<open>The object literal \<^verbatim>\<open>{ k1: r.k1, k2: r.k2, ... }\<close> built from a response.\<close>

definition pick :: "HandlerResponse \<Rightarrow> string list \<Rightarrow> jsrecord" where
  "pick r ks = map (\<lambda>k. (k, getprop (hr_fields r) k)) ks"

text \<open>The cast \<^verbatim>\<open>as unknown as Record<string, unknown>\<close> of an object value.\<close>

definition asRecord :: "json \<Rightarrow> jsrecord" where
  "asRecord v = (case v of JObj kvs \<Rightarrow> kvs | _ \<Rightarrow> [])"

text \<open>
  One \<^verbatim>\<open>case\<close> group of the \<^verbatim>\<open>switch\<close>: the handler of the protocol is absent
  (\<^verbatim>\<open>NOT_IMPLEMENTED\<close> is thrown), or its method is awaited and its response shaped; a
  throw of the method passes through.
\<close>

definition route ::
  "'h option \<Rightarrow> string \<Rightarrow> ('h \<Rightarrow> handler_fn) \<Rightarrow> jsrecord \<Rightarrow> Principal option
     \<Rightarrow> (HandlerResponse \<Rightarrow> SkillResult) \<Rightarrow> thrown + SkillResult" where
  "route h notEnabled method params princ shape =
     (case h of
        None \<Rightarrow> Inl (AdcpError ''NOT_IMPLEMENTED'' notEnabled)
      | Some handler \<Rightarrow>
          (case method handler params princ of
             Inl e \<Rightarrow> Inl e
           | Inr r \<Rightarrow> Inr (shape r)))"

definition shaped :: "string list \<Rightarrow> HandlerResponse \<Rightarrow> SkillResult" where
  "shaped ks r =
     \<lparr> sr_status = statusOrCompleted r, sr_message = hr_message r,
       sr_data = pick r ks, sr_artifact = None \<rparr>"

text \<open>\<^verbatim>\<open>String.prototype.toLowerCase\<close> on the ASCII letters, and \<^verbatim>\<open>includes\<close>.\<close>

definition lowerChar :: "char \<Rightarrow> char" where
  "lowerChar c =
     (if (65::nat) \<le> of_char c \<and> of_char c \<le> (90::nat)
      then char_of (of_char c + (32::nat)) else c)"

definition toLowerCase :: "string \<Rightarrow> string" where
  "toLowerCase s = map lowerChar s"

fun includesStr :: "string \<Rightarrow> string \<Rightarrow> bool" where
  "includesStr [] sub = (sub = [])"
| "includesStr (c # cs) sub = (take (length sub) (c # cs) = sub \<or> includesStr cs sub)"

text \<open>A2aServer.handleNaturalLanguageRequest: keyword routing on the context.\<close>

definition handleNaturalLanguageRequest ::
  "Handlers \<Rightarrow> string \<Rightarrow> jsrecord \<Rightarrow> Principal option \<Rightarrow> thrown + SkillResult" where
  "handleNaturalLanguageRequest hs ctx params princ =
     (let lowerContext = toLowerCase ctx;
          understood = Inr \<lparr> sr_status = Completed,
            sr_message = ''I understood your request but could not determine the appropriate action.'',
            sr_data = [(''context'', JStr ctx), (''parameters'', JObj params)],
            sr_artifact = None \<rparr>;
          products =
            (if includesStr lowerContext ''product'' \<or> includesStr lowerContext ''inventory''
                \<or> includesStr lowerContext ''campaign''
             then (case mediaBuy hs of
                     Some mb \<Rightarrow>
                       (case getProducts mb (spread [(''brief'', JStr ctx)] params) princ of
                          Inl e \<Rightarrow> Inl e
                        | Inr r \<Rightarrow> Inr \<lparr> sr_status = Completed, sr_message = hr_message r,
                                        sr_data = pick r [''products''], sr_artifact = None \<rparr>)
                   | None \<Rightarrow> understood)
             else understood)
      in if includesStr lowerContext ''signal'' \<or> includesStr lowerContext ''audience''
            \<or> includesStr lowerContext ''segment''
         then (case signals hs of
                 Some sh \<Rightarrow>
                   (case getSignals sh
                           [(''signal_spec'', JStr ctx),
                            (''deliver_to'',
                               if truthy (getprop params ''deliver_to'')
                               then getprop params ''deliver_to''
                               else JObj [(''deployments'', JArr []),
                                          (''countries'', JArr [JStr ''US''])])]
                           princ of
                      Inl e \<Rightarrow> Inl e
                    | Inr r \<Rightarrow> Inr \<lparr> sr_status = Completed, sr_message = hr_message r,
                                    sr_data = pick r [''signals''], sr_artifact = None \<rparr>)
               | None \<Rightarrow> products)
         else products)"

text \<open>The skill names that have a \<^verbatim>\<open>case\<close> label in executeSkill.\<close>

definition routedSkills :: "string list" where
  "routedSkills =
     [''get_signals'', ''signals.get_signals'',
      ''activate_signal'', ''signals.activate_signal'',
      ''get_products'', ''media_buy.get_products'',
      ''create_media_buy'', ''media_buy.create_media_buy'',
      ''update_media_buy'', ''media_buy.update_media_buy'',
      ''get_media_buy_delivery'', ''media_buy.get_media_buy_delivery'',
      ''sync_creatives'', ''media_buy.sync_creatives'',
      ''build_creative'', ''creative.build_creative'',
      ''preview_creative'', ''creative.preview_creative'']"

text \<open>\<^verbatim>\<open>if (context)\<close>: an absent context and the empty string are falsy.\<close>

definition contextTruthy :: "string option \<Rightarrow> bool" where
  "contextTruthy c = (case c of None \<Rightarrow> False | Some t \<Rightarrow> t \<noteq> [])"

definition executeSkill ::
  "Handlers \<Rightarrow> A2aSkillInvocation \<Rightarrow> Principal option \<Rightarrow> thrown + SkillResult" where
  "executeSkill hs invocation princ =
     (let sk = inv_skill invocation; params = inv_parameters invocation in
      if sk = ''get_signals'' \<or> sk = ''signals.get_signals'' then
        route (signals hs) ''Signals protocol not enabled'' getSignals params princ
          (shaped [''signals''])
      else if sk = ''activate_signal'' \<or> sk = ''signals.activate_signal'' then
        route (signals hs) ''Signals protocol not enabled'' activateSignal params princ
          (shaped [''deployments'', ''errors''])
      else if sk = ''get_products'' \<or> sk = ''media_buy.get_products'' then
        route (mediaBuy hs) ''Media Buy protocol not enabled'' getProducts params princ
          (shaped [''products''])
      else if sk = ''create_media_buy'' \<or> sk = ''media_buy.create_media_buy'' then
        route (mediaBuy hs) ''Media Buy protocol not enabled'' createMediaBuy params princ
          (shaped [''media_buy_id'', ''buyer_ref'', ''packages''])
      else if sk = ''update_media_buy'' \<or> sk = ''media_buy.update_media_buy'' then
        route (mediaBuy hs) ''Media Buy protocol not enabled'' updateMediaBuy params princ
          (shaped [''media_buy_id'', ''affected_packages''])
      else if sk = ''get_media_buy_delivery'' \<or> sk = ''media_buy.get_media_buy_delivery'' then
        route (mediaBuy hs) ''Media Buy protocol not enabled'' getMediaBuyDelivery params princ
          (shaped [''reporting_period'', ''aggregated_totals'', ''media_buy_deliveries''])
      else if sk = ''sync_creatives'' \<or> sk = ''media_buy.sync_creatives'' then
        route (mediaBuy hs) ''Media Buy protocol not enabled'' syncCreatives params princ
          (shaped [''creatives''])
      else if sk = ''build_creative'' \<or> sk = ''creative.build_creative'' then
        route (creative hs) ''Creative protocol not enabled'' buildCreative params princ
          (\<lambda>r. (shaped [''creative_manifest''] r)
                 \<lparr> sr_artifact := Some (''creative_manifest'',
                      asRecord (getprop (hr_fields r) ''creative_manifest'')) \<rparr>)
      else if sk = ''preview_creative'' \<or> sk = ''creative.preview_creative'' then
        route (creative hs) ''Creative protocol not enabled'' previewCreative params princ
          (shaped [''response_type'', ''previews'', ''results''])
      else
        (case inv_context invocation of
           Some ctx \<Rightarrow>
             if ctx \<noteq> [] then handleNaturalLanguageRequest hs ctx params princ
             else Inl (AdcpError ''NOT_IMPLEMENTED'' (''Unknown skill: '' @ sk))
         | None \<Rightarrow> Inl (AdcpError ''NOT_IMPLEMENTED'' (''Unknown skill: '' @ sk))))"


section \<open>The server state (class A2aServer)\<close>

text \<open>
  A suspended \<^verbatim>\<open>processTask\<close>: the call has parsed the request and waits at
  \<^verbatim>\<open>await this.executeSkill(invocation, principal)\<close>. It holds the task, the
  invocation, the principal and the webhook configuration.
\<close>

record Suspended =
  sp_task :: string
  sp_invocation :: A2aSkillInvocation
  sp_principal :: "Principal option"
  sp_webhook :: "A2aWebhookConfig option"

text \<open>
  The fields of the class are \<open>handlers\<close> (of \<^verbatim>\<open>config\<close>), \<open>tasks\<close> and
  \<open>taskListeners\<close>. A listener is a callback, known by its identity (a number).
  Throughout, a listener only observes the events it is called with: it calls no
  operation of the server from inside the callback (\<^verbatim>\<open>emitEvent\<close> calls it
  synchronously, so such a call would run in the middle of the operation that emits).
  Every property below that speaks of listener calls is a property of servers whose
  listeners observe only. The
  \<^verbatim>\<open>Set<SseListener>\<close> objects are shared between the map and the closures returned
  by \<^verbatim>\<open>subscribeToTask\<close>, so they live in a store: \<open>taskListeners\<close> maps a task id to
  the address of its set, \<open>listenerSets\<close> maps an address to the members in insertion
  order, \<open>nextSet\<close> is the next free address.

  The environment: \<open>clock\<close> answers the successive \<^verbatim>\<open>new Date().toISOString()\<close> calls,
  \<open>uuidSource\<close> the successive \<^verbatim>\<open>uuid()\<close> calls, \<open>listenerThrows\<close> says which listener
  callbacks throw (and what) when called.

  What the server does to the outside: \<open>delivered\<close> lists the calls
  \<^verbatim>\<open>listener(event)\<close>, \<open>emitted\<close> the calls of \<^verbatim>\<open>emitEvent\<close>, \<open>webhookLog\<close> the
  calls of \<^verbatim>\<open>sendWebhook\<close>, each in the order made; \<open>suspended\<close> holds the
  \<^verbatim>\<open>processTask\<close> calls that wait for their handler.

  A task is reached through its id: \<^verbatim>\<open>uuid()\<close> is taken to give a fresh id at
  every call, so the task object a suspended \<^verbatim>\<open>processTask\<close> holds is the one stored
  under its id.
\<close>

record A2aServer =
  handlers :: Handlers
  tasks :: "string \<rightharpoonup> A2aTask"
  taskListeners :: "string \<rightharpoonup> nat"
  listenerSets :: "nat \<Rightarrow> nat list"
  nextSet :: nat
  clock :: "nat \<Rightarrow> string"
  dateCalls :: nat
  uuidSource :: "nat \<Rightarrow> string"
  uuidCalls :: nat
  listenerThrows :: "nat \<Rightarrow> thrown option"
  delivered :: "(nat \<times> SseEvent) list"
  emitted :: "(string \<times> SseEvent) list"
  webhookLog :: "(A2aWebhookConfig \<times> A2aWebhookPayload) list"
  suspended :: "Suspended list"

text \<open>The constructor: no task, no listener.\<close>

definition newServer ::
  "Handlers \<Rightarrow> (nat \<Rightarrow> string) \<Rightarrow> (nat \<Rightarrow> string) \<Rightarrow> (nat \<Rightarrow> thrown option) \<Rightarrow> A2aServer" where
  "newServer hs clk uu thr =
     \<lparr> handlers = hs, tasks = Map.empty, taskListeners = Map.empty,
       listenerSets = (\<lambda>_. []), nextSet = 0,
       clock = clk, dateCalls = 0, uuidSource = uu, uuidCalls = 0,
       listenerThrows = thr,
       delivered = [], emitted = [], webhookLog = [], suspended = [] \<rparr>"

definition newDate :: "A2aServer \<Rightarrow> string \<times> A2aServer" where
  "newDate s = (clock s (dateCalls s), s\<lparr>dateCalls := Suc (dateCalls s)\<rparr>)"

definition uuid :: "A2aServer \<Rightarrow> string \<times> A2aServer" where
  "uuid s = (uuidSource s (uuidCalls s), s\<lparr>uuidCalls := Suc (uuidCalls s)\<rparr>)"

text \<open>The members of the listener set registered for a task id, in insertion order.\<close>

definition subscribersOf :: "A2aServer \<Rightarrow> string \<Rightarrow> nat list" where
  "subscribersOf s taskId =
     (case taskListeners s taskId of None \<Rightarrow> [] | Some a \<Rightarrow> listenerSets s a)"

text \<open>
  One call \<^verbatim>\<open>listener(event)\<close>: the listener receives the event; the call returns
  or throws.
\<close>

definition callListener :: "nat \<Rightarrow> SseEvent \<Rightarrow> A2aServer \<Rightarrow> thrown option \<times> A2aServer" where
  "callListener l ev s = (listenerThrows s l, s\<lparr>delivered := delivered s @ [(l, ev)]\<rparr>)"

text \<open>
  A2aServer.emitEvent: every listener of the set is called in turn, inside
  \<^verbatim>\<open>try { listener(event) } catch { }\<close>, so a throw is dropped and the loop goes on.
\<close>

fun emitLoop :: "nat list \<Rightarrow> SseEvent \<Rightarrow> A2aServer \<Rightarrow> A2aServer" where
  "emitLoop [] ev s = s"
| "emitLoop (l # ls) ev s =
     (case callListener l ev s of
        (None, s') \<Rightarrow> emitLoop ls ev s'
      | (Some e, s') \<Rightarrow> emitLoop ls ev s')"

definition emitEvent :: "string \<Rightarrow> SseEvent \<Rightarrow> A2aServer \<Rightarrow> A2aServer" where
  "emitEvent taskId ev s =
     (let s1 = s\<lparr>emitted := emitted s @ [(taskId, ev)]\<rparr> in
      case taskListeners s1 taskId of
        None \<Rightarrow> s1
      | Some a \<Rightarrow> emitLoop (listenerSets s1 a) ev s1)"

text \<open>A2aServer.sendWebhook: the payload is logged; nothing is awaited or thrown.\<close>

definition sendWebhook :: "A2aWebhookConfig \<Rightarrow> A2aWebhookPayload \<Rightarrow> A2aServer \<Rightarrow> A2aServer" where
  "sendWebhook config payload s = s\<lparr>webhookLog := webhookLog s @ [(config, payload)]\<rparr>"

text \<open>A write to the task object stored under an id.\<close>

definition setTask :: "A2aTask \<Rightarrow> A2aServer \<Rightarrow> A2aServer" where
  "setTask t s = s\<lparr>tasks := (tasks s)(id t \<mapsto> t)\<rparr>"

definition responseOf :: "A2aTask \<Rightarrow> A2aTaskResponse" where
  "responseOf t =
     \<lparr> task_id = id t, rs_status = status t,
       rs_messages = Some (messages t), rs_artifacts = Some (artifacts t) \<rparr>"


section \<open>Completing and failing a task (A2aServer.completeTask, failTask)\<close>

definition completeTask :: "A2aTask \<Rightarrow> A2aMessage \<Rightarrow> TaskStatus \<Rightarrow> A2aServer \<Rightarrow> A2aServer" where
  "completeTask task responseMessage st s =
     (let (now, s1) = newDate s;
          task' = task\<lparr> messages := messages task @ [responseMessage],
                        status := \<lparr> state = st,
                                    message = Some (if st = Completed
                                                    then ''Task completed successfully''
                                                    else ''Processing''),
                                    progress = None,
                                    timestamp = now \<rparr>,
                        updated_at := now \<rparr>;
          s2 = setTask task' s1;
          s3 = emitEvent (id task') \<lparr> ev_data = MessageEv responseMessage, ev_timestamp = now \<rparr> s2
      in emitEvent (id task') \<lparr> ev_data = CompleteEv (responseOf task'), ev_timestamp = now \<rparr> s3)"

definition failTask :: "A2aTask \<Rightarrow> string \<Rightarrow> string \<Rightarrow> A2aServer \<Rightarrow> A2aServer" where
  "failTask task code msg s =
     (let (now, s1) = newDate s;
          task' = task\<lparr> status := \<lparr> state = Failed, message = Some msg,
                                    progress = None, timestamp = now \<rparr>,
                        updated_at := now \<rparr>;
          s2 = setTask task' s1
      in emitEvent (id task') \<lparr> ev_data = ErrorEv code msg, ev_timestamp = now \<rparr> s2)"


section \<open>Executing a task (A2aServer.processTask)\<close>

text \<open>
  The \<^verbatim>\<open>catch (error)\<close> block: \<^verbatim>\<open>error instanceof AdcpError ? error.code :
  'INTERNAL_ERROR'\<close> and \<^verbatim>\<open>error instanceof Error ? error.message : 'Unknown error'\<close>.
\<close>

fun errorCode :: "thrown \<Rightarrow> string" where
  "errorCode (AdcpError code msg) = code"
| "errorCode (OtherError msg) = ''INTERNAL_ERROR''"
| "errorCode (NonError v) = ''INTERNAL_ERROR''"

fun errorMessage :: "thrown \<Rightarrow> string" where
  "errorMessage (AdcpError code msg) = msg"
| "errorMessage (OtherError msg) = msg"
| "errorMessage (NonError v) = ''Unknown error''"

text \<open>
  The part of \<^verbatim>\<open>processTask\<close> that runs inside \<^verbatim>\<open>createTask\<close>: the request is
  parsed, \<^verbatim>\<open>executeSkill\<close> is called, and the call waits for it.
\<close>

definition processTaskStart ::
  "string \<Rightarrow> A2aTaskRequest \<Rightarrow> Principal option \<Rightarrow> A2aWebhookConfig option
     \<Rightarrow> A2aServer \<Rightarrow> A2aServer" where
  "processTaskStart taskId request princ wh s =
     s\<lparr>suspended := suspended s @
         [\<lparr> sp_task = taskId, sp_invocation = parseSkillInvocation request,
            sp_principal = princ, sp_webhook = wh \<rparr>]\<rparr>"

text \<open>The \<^verbatim>\<open>try\<close> block after \<^verbatim>\<open>executeSkill\<close> has returned \<open>result\<close>.\<close>

definition processTaskSuccess ::
  "A2aTask \<Rightarrow> SkillResult \<Rightarrow> A2aWebhookConfig option \<Rightarrow> A2aServer \<Rightarrow> A2aServer" where
  "processTaskSuccess task result wh s =
     (let (t1, s1) = newDate s;
          (u1, s2) = uuid s1;
          responseMessage =
            \<lparr> role = Agent,
              parts = [TextPart (sr_message result), DataPart (sr_data result) None],
              metadata = Some \<lparr> mm_timestamp = Some t1,
                                message_id = Some (''msg-'' @ u1),
                                correlation_id = None \<rparr> \<rparr>;
          (task1, s3) =
            (case sr_artifact result of
               None \<Rightarrow> (task, s2)
             | Some (nm, dat) \<Rightarrow>
                 (let (u2, sa) = uuid s2;
                      (t2, sb) = newDate sa;
                      artifact =
                        \<lparr> art_name = Some nm,
                          art_parts = [DataPart dat None],
                          art_metadata = Some \<lparr> artifact_id = Some (''artifact-'' @ u2),
                                                am_created_at = Some t2 \<rparr> \<rparr>;
                      task' = task\<lparr>artifacts := artifacts task @ [artifact]\<rparr>;
                      sc = setTask task' sb;
                      (t3, sd) = newDate sc
                  in (task', emitEvent (id task')
                               \<lparr> ev_data = ArtifactEv artifact, ev_timestamp = t3 \<rparr> sd)));
          s4 = completeTask task1 responseMessage (sr_status result) s3
      in case wh of
           None \<Rightarrow> s4
         | Some config \<Rightarrow>
             (let (t4, s5) = newDate s4
              in sendWebhook config
                   \<lparr> wp_task_id = id task1, wp_event = EvCompleted,
                     wp_status = (case tasks s5 (id task1) of
                                    Some t \<Rightarrow> status t | None \<Rightarrow> status task1),
                     wp_timestamp = t4, wp_data = Some (sr_data result) \<rparr> s5))"

text \<open>The \<^verbatim>\<open>catch\<close> block.\<close>

definition processTaskFailure ::
  "A2aTask \<Rightarrow> thrown \<Rightarrow> A2aWebhookConfig option \<Rightarrow> A2aServer \<Rightarrow> A2aServer" where
  "processTaskFailure task err wh s =
     (let s1 = failTask task (errorCode err) (errorMessage err) s
      in case wh of
           None \<Rightarrow> s1
         | Some config \<Rightarrow>
             (let (t1, s2) = newDate s1
              in sendWebhook config
                   \<lparr> wp_task_id = id task, wp_event = EvFailed,
                     wp_status = (case tasks s2 (id task) of
                                    Some t \<Rightarrow> status t | None \<Rightarrow> status task),
                     wp_timestamp = t1, wp_data = None \<rparr> s2))"

text \<open>
  The rest of \<^verbatim>\<open>processTask\<close>, run when the awaited \<^verbatim>\<open>executeSkill\<close> settles: its
  result goes through the \<^verbatim>\<open>try\<close> block, its throw to the \<^verbatim>\<open>catch\<close> block. The task
  written to is the one stored under the id (tasks are never removed from the table).
\<close>

definition processTaskResume :: "Suspended \<Rightarrow> A2aServer \<Rightarrow> A2aServer" where
  "processTaskResume sp s =
     (case tasks s (sp_task sp) of
        None \<Rightarrow> s
      | Some task \<Rightarrow>
          (case executeSkill (handlers s) (sp_invocation sp) (sp_principal sp) of
             Inr result \<Rightarrow> processTaskSuccess task result (sp_webhook sp) s
           | Inl err \<Rightarrow> processTaskFailure task err (sp_webhook sp) s))"


section \<open>The public operations\<close>

text \<open>A2aServer.createTask.\<close>

definition createTask ::
  "A2aTaskRequest \<Rightarrow> Principal option \<Rightarrow> A2aServer \<Rightarrow> A2aTaskResponse \<times> A2aServer" where
  "createTask request princ s =
     (let (u1, s1) = uuid s;
          taskId = ''task-'' @ u1;
          (now, s2) = newDate s1;
          (u2, s3) = uuid s2;
          task =
            \<lparr> id = taskId,
              status = \<lparr> state = Working, message = Some ''Processing request'',
                         progress = None, timestamp = now \<rparr>,
              messages =
                [\<lparr> role = User, parts = rq_parts request,
                   metadata = Some \<lparr> mm_timestamp = Some now,
                                     message_id = Some (''msg-'' @ u2),
                                     correlation_id =
                                       (case rq_metadata request of
                                          None \<Rightarrow> None
                                        | Some m \<Rightarrow> rq_correlation_id m) \<rparr> \<rparr>],
              artifacts = [],
              created_at = now,
              updated_at = now,
              task_metadata =
                \<lparr> tm_skill = skill request,
                  tm_principal_id = map_option principal_id princ,
                  tm_context_id =
                    (case rq_metadata request of
                       None \<Rightarrow> None
                     | Some m \<Rightarrow> rq_context_id m) \<rparr> \<rparr>;
          s4 = setTask task s3;
          s5 = processTaskStart taskId request princ (webhook request) s4
      in (\<lparr> task_id = taskId, rs_status = status task,
            rs_messages = None, rs_artifacts = None \<rparr>, s5))"

text \<open>A2aServer.getTask.\<close>

definition getTask :: "string \<Rightarrow> A2aServer \<Rightarrow> A2aTaskResponse option" where
  "getTask taskId s = map_option responseOf (tasks s taskId)"

text \<open>A2aServer.continueTask.\<close>

definition continueTask ::
  "string \<Rightarrow> MessagePart list \<Rightarrow> Principal option \<Rightarrow> A2aServer
     \<Rightarrow> A2aTaskResponse option \<times> A2aServer" where
  "continueTask taskId ps princ s =
     (case tasks s taskId of
        None \<Rightarrow> (None, s)
      | Some task \<Rightarrow>
          (let (now, s1) = newDate s;
               (u1, s2) = uuid s1;
               task1 = task\<lparr> messages := messages task @
                              [\<lparr> role = User, parts = ps,
                                 metadata = Some \<lparr> mm_timestamp = Some now,
                                                   message_id = Some (''msg-'' @ u1),
                                                   correlation_id = None \<rparr> \<rparr>],
                            status := \<lparr> state = Working,
                                        message = Some ''Processing additional input'',
                                        progress = None, timestamp = now \<rparr>,
                            updated_at := now \<rparr>;
               s3 = setTask task1 s2;
               s4 = emitEvent taskId \<lparr> ev_data = StatusEv (status task1), ev_timestamp = now \<rparr> s3;
               s5 = completeTask task1
                      \<lparr> role = Agent,
                        parts = [TextPart ''Acknowledged additional input.''],
                        metadata = None \<rparr>
                      Completed s4
           in (map_option responseOf (tasks s5 taskId), s5)))"

text \<open>A2aServer.cancelTask.\<close>

definition cancelTask :: "string \<Rightarrow> A2aServer \<Rightarrow> bool \<times> A2aServer" where
  "cancelTask taskId s =
     (case tasks s taskId of
        None \<Rightarrow> (False, s)
      | Some task \<Rightarrow>
          if state (status task) = Completed \<or> state (status task) = Failed then (False, s)
          else
            (let (now, s1) = newDate s;
                 task' = task\<lparr> status := \<lparr> state = Failed, message = Some ''Task cancelled'',
                                           progress = None, timestamp = now \<rparr>,
                               updated_at := now \<rparr>;
                 s2 = setTask task' s1;
                 s3 = emitEvent taskId
                        \<lparr> ev_data = ErrorEv ''CANCELLED'' ''Task was cancelled'',
                          ev_timestamp = now \<rparr> s2
             in (True, s3)))"

text \<open>
  A2aServer.subscribeToTask. The function returned closes over the set
  \<^verbatim>\<open>listeners\<close> (its address), the listener and the task id.
\<close>

record Unsubscribe =
  un_listeners :: nat
  un_listener :: nat
  un_taskId :: string

text \<open>\<^verbatim>\<open>Set.prototype.add\<close> and \<^verbatim>\<open>Set.prototype.delete\<close>.\<close>

definition setAdd :: "nat \<Rightarrow> nat list \<Rightarrow> nat list" where
  "setAdd l ls = (if l \<in> set ls then ls else ls @ [l])"

definition setDelete :: "nat \<Rightarrow> nat list \<Rightarrow> nat list" where
  "setDelete l ls = removeAll l ls"

definition subscribeToTask ::
  "string \<Rightarrow> nat \<Rightarrow> A2aServer \<Rightarrow> (thrown + Unsubscribe) \<times> A2aServer" where
  "subscribeToTask taskId listener s =
     (let (a, s1) =
            (case taskListeners s taskId of
               Some a \<Rightarrow> (a, s)
             | None \<Rightarrow>
                 (nextSet s,
                  s\<lparr> listenerSets := (listenerSets s)(nextSet s := []),
                     nextSet := Suc (nextSet s),
                     taskListeners := (taskListeners s)(taskId \<mapsto> nextSet s) \<rparr>));
          s2 = s1\<lparr>listenerSets := (listenerSets s1)(a := setAdd listener (listenerSets s1 a))\<rparr>;
          unsubscribe = \<lparr> un_listeners = a, un_listener = listener, un_taskId = taskId \<rparr>
      in case tasks s2 taskId of
           None \<Rightarrow> (Inr unsubscribe, s2)
         | Some task \<Rightarrow>
             (let (now, s3) = newDate s2
              in case callListener listener
                        \<lparr> ev_data = StatusEv (status task), ev_timestamp = now \<rparr> s3 of
                   (None, s4) \<Rightarrow> (Inr unsubscribe, s4)
                 | (Some e, s4) \<Rightarrow> (Inl e, s4)))"

text \<open>The function returned by \<^verbatim>\<open>subscribeToTask\<close>, called.\<close>

definition unsubscribe :: "Unsubscribe \<Rightarrow> A2aServer \<Rightarrow> A2aServer" where
  "unsubscribe u s =
     (let s1 = s\<lparr>listenerSets :=
                   (listenerSets s)(un_listeners u :=
                      setDelete (un_listener u) (listenerSets s (un_listeners u)))\<rparr>
      in if length (listenerSets s1 (un_listeners u)) = 0
         then s1\<lparr>taskListeners := (taskListeners s1)(un_taskId u := None)\<rparr>
         else s1)"

text \<open>
  The awaited handler of the \<open>n\<close>-th waiting \<^verbatim>\<open>processTask\<close> settles and that call
  runs to its end.
\<close>

definition completeExecution :: "nat \<Rightarrow> A2aServer \<Rightarrow> A2aServer" where
  "completeExecution n s =
     (if n < length (suspended s)
      then processTaskResume (suspended s ! n)
             (s\<lparr>suspended := take n (suspended s) @ drop (Suc n) (suspended s)\<rparr>)
      else s)"

text \<open>The steps a server takes, and runs of them.\<close>

datatype step =
    Create A2aTaskRequest "Principal option"
  | Continue string "MessagePart list" "Principal option"
  | Cancel string
  | Subscribe string nat
  | Unsub Unsubscribe
  | Get string
  | ExecutionCompletes nat

fun exec :: "step \<Rightarrow> A2aServer \<Rightarrow> A2aServer" where
  "exec (Create request princ) s = snd (createTask request princ s)"
| "exec (Continue taskId ps princ) s = snd (continueTask taskId ps princ s)"
| "exec (Cancel taskId) s = snd (cancelTask taskId s)"
| "exec (Subscribe taskId listener) s = snd (subscribeToTask taskId listener s)"
| "exec (Unsub u) s = unsubscribe u s"
| "exec (Get taskId) s = s"
| "exec (ExecutionCompletes n) s = completeExecution n s"

definition run :: "step list \<Rightarrow> A2aServer \<Rightarrow> A2aServer" where
  "run steps s = fold exec steps s"

text \<open>The events a listener has been called with, in the order of the calls.\<close>

definition received :: "nat \<Rightarrow> A2aServer \<Rightarrow> SseEvent list" where
  "received l s = map snd (filter (\<lambda>(l', ev). l' = l) (delivered s))"


section \<open>Notions used by the properties\<close>

text \<open>Every task is stored under its own id, as \<^verbatim>\<open>createTask\<close> stores it.\<close>

definition tasksKeyed :: "A2aServer \<Rightarrow> bool" where
  "tasksKeyed s = (\<forall>k t. tasks s k = Some t \<longrightarrow> id t = k)"

text \<open>
  The listener calls that a list of \<^verbatim>\<open>emitEvent\<close> calls gives rise to: each event goes
  to the subscribers of its task, in registration order, before the next event.
\<close>

definition fanout :: "A2aServer \<Rightarrow> (string \<times> SseEvent) list \<Rightarrow> (nat \<times> SseEvent) list" where
  "fanout s evs = concat (map (\<lambda>(t, ev). map (\<lambda>l. (l, ev)) (subscribersOf s t)) evs)"

text \<open>
  A step from \<open>s\<close> to \<open>s'\<close> that does not touch the listener sets and whose listener
  calls are the fan-out of the events it emits.
\<close>

definition fans :: "A2aServer \<Rightarrow> A2aServer \<Rightarrow> bool" where
  "fans s s' =
     (taskListeners s' = taskListeners s \<and> listenerSets s' = listenerSets s
      \<and> take (length (emitted s)) (emitted s') = emitted s
      \<and> delivered s' = delivered s @ fanout s (drop (length (emitted s)) (emitted s')))"

text \<open>The steps that register or remove a listener.\<close>

fun changesSubscribers :: "step \<Rightarrow> bool" where
  "changesSubscribers (Subscribe taskId listener) = True"
| "changesSubscribers (Unsub u) = True"
| "changesSubscribers st = False"

text \<open>
  The steps that are not a Continue on the task \<open>k\<close> and not the completion of a
  handler execution of the task \<open>k\<close>; and the runs made of such steps, each step looked
  at in the state it is taken in.
\<close>

fun spares :: "string \<Rightarrow> A2aServer \<Rightarrow> step \<Rightarrow> bool" where
  "spares k s (Continue taskId ps princ) = (taskId \<noteq> k)"
| "spares k s (ExecutionCompletes n) =
     (n < length (suspended s) \<longrightarrow> sp_task (suspended s ! n) \<noteq> k)"
| "spares k s st = True"

fun sparing :: "string \<Rightarrow> step list \<Rightarrow> A2aServer \<Rightarrow> bool" where
  "sparing k [] s = True"
| "sparing k (st # steps) s = (spares k s st \<and> sparing k steps (exec st s))"

text \<open>
  Every task id in the table was made by \<^verbatim>\<open>createTask\<close> from an earlier answer of
  \<^verbatim>\<open>uuid()\<close>. With a \<^verbatim>\<open>uuid()\<close> that never repeats an answer (\<open>inj (uuidSource s)\<close>),
  the id of the next task is then a fresh one.
\<close>

definition idsIssued :: "A2aServer \<Rightarrow> bool" where
  "idsIssued s =
     (\<forall>k t. tasks s k = Some t \<longrightarrow> (\<exists>i < uuidCalls s. k = ''task-'' @ uuidSource s i))"


text \<open>The task of every waiting \<^verbatim>\<open>processTask\<close> is in the table.\<close>

definition pendingStored :: "A2aServer \<Rightarrow> bool" where
  "pendingStored s = (\<forall>sp \<in> set (suspended s). tasks s (sp_task sp) \<noteq> None)"

text \<open>No listener is twice in a listener set, as \<^verbatim>\<open>Set\<close> has it.\<close>

definition setsDistinct :: "A2aServer \<Rightarrow> bool" where
  "setsDistinct s = (\<forall>a. distinct (listenerSets s a))"

text \<open>The messages and events that the operations build.\<close>

definition cancelEvent :: "string \<Rightarrow> SseEvent" where
  "cancelEvent now =
     \<lparr> ev_data = ErrorEv ''CANCELLED'' ''Task was cancelled'', ev_timestamp = now \<rparr>"

text \<open>The error event of \<^verbatim>\<open>failTask\<close>, as \<^verbatim>\<open>processTask\<close> calls it for a thrown error.\<close>

definition failureEvent :: "thrown \<Rightarrow> string \<Rightarrow> SseEvent" where
  "failureEvent err now =
     \<lparr> ev_data = ErrorEv (errorCode err) (errorMessage err), ev_timestamp = now \<rparr>"

definition ackMessage :: A2aMessage where
  "ackMessage =
     \<lparr> role = Agent, parts = [TextPart ''Acknowledged additional input.''], metadata = None \<rparr>"

definition userMessage :: "MessagePart list \<Rightarrow> string \<Rightarrow> string \<Rightarrow> A2aMessage" where
  "userMessage ps now u =
     \<lparr> role = User, parts = ps,
       metadata = Some \<lparr> mm_timestamp = Some now, message_id = Some (''msg-'' @ u),
                         correlation_id = None \<rparr> \<rparr>"

definition responseMessage :: "SkillResult \<Rightarrow> string \<Rightarrow> string \<Rightarrow> A2aMessage" where
  "responseMessage result now u =
     \<lparr> role = Agent,
       parts = [TextPart (sr_message result), DataPart (sr_data result) None],
       metadata = Some \<lparr> mm_timestamp = Some now, message_id = Some (''msg-'' @ u),
                         correlation_id = None \<rparr> \<rparr>"

text \<open>
  What an observer reads off an event without looking at texts: its type, the task
  state it reports (status and complete events), the role of the message it carries,
  and the error code it carries.
\<close>

fun summary :: "SseEvent \<Rightarrow> SseEventType \<times> TaskStatus option \<times> Role option \<times> string option" where
  "summary ev =
     (case ev_data ev of
        StatusEv st \<Rightarrow> (TStatus, Some (state st), None, None)
      | MessageEv m \<Rightarrow> (TMessage, None, Some (role m), None)
      | ArtifactEv a \<Rightarrow> (TArtifact, None, None, None)
      | ProgressEv n m \<Rightarrow> (TProgress, None, None, None)
      | ErrorEv code msg \<Rightarrow> (TError, None, None, Some code)
      | CompleteEv r \<Rightarrow> (TComplete, Some (state (rs_status r)), None, None))"

text \<open>
  The webhook delivery attempts made so far: url, task id, event and the task state in
  the payload.
\<close>

definition attempts :: "A2aServer \<Rightarrow> (string \<times> string \<times> A2aWebhookEvent \<times> TaskStatus) list" where
  "attempts s =
     map (\<lambda>(config, payload).
            (url config, wp_task_id payload, wp_event payload, state (wp_status payload)))
         (webhookLog s)"

text \<open>
  A small configuration to run the server on: a signals handler whose \<^verbatim>\<open>getSignals\<close>
  answers with a given status and whose \<^verbatim>\<open>activateSignal\<close> throws a plain
  \<^verbatim>\<open>Error\<close>, a creative handler whose \<^verbatim>\<open>buildCreative\<close> answers and whose
  \<^verbatim>\<open>previewCreative\<close> throws an \<^verbatim>\<open>AdcpError\<close>, no media-buy handler; a clock
  that stands still, and distinct uuids \<open>u\<close>, \<open>uu\<close>, \<open>uuu\<close>, ...
\<close>

definition exResponse :: "TaskStatus option \<Rightarrow> HandlerResponse" where
  "exResponse st =
     \<lparr> hr_status = st, hr_message = ''ok'',
       hr_fields = [(''signals'', JArr []),
                    (''creative_manifest'', JObj [(''format'', JStr ''banner'')])] \<rparr>"

definition exHandlers :: "TaskStatus option \<Rightarrow> Handlers" where
  "exHandlers st =
     \<lparr> signals = Some \<lparr> getSignals = (\<lambda>params princ. Inr (exResponse st)),
                        activateSignal = (\<lambda>params princ. Inl (OtherError ''boom'')) \<rparr>,
       mediaBuy = None,
       creative = Some \<lparr> buildCreative = (\<lambda>params princ. Inr (exResponse st)),
                         previewCreative =
                           (\<lambda>params princ. Inl (AdcpError ''INVALID_REQUEST'' ''bad'')) \<rparr> \<rparr>"

definition exServer :: "TaskStatus option \<Rightarrow> A2aServer" where
  "exServer st =
     newServer (exHandlers st) (\<lambda>n. ''t'') (\<lambda>n. replicate (Suc n) (CHR ''u'')) (\<lambda>l. None)"

text \<open>The same server with a signals handler whose \<^verbatim>\<open>getSignals\<close> throws a given error.\<close>

definition exThrowing :: "thrown \<Rightarrow> A2aServer" where
  "exThrowing err =
     newServer \<lparr> signals = Some \<lparr> getSignals = (\<lambda>params princ. Inl err),
                                   activateSignal = (\<lambda>params princ. Inl err) \<rparr>,
                 mediaBuy = None, creative = None \<rparr>
       (\<lambda>n. ''t'') (\<lambda>n. replicate (Suc n) (CHR ''u'')) (\<lambda>l. None)"

definition exRequest :: "string \<Rightarrow> A2aWebhookConfig option \<Rightarrow> A2aTaskRequest" where
  "exRequest sk wh =
     \<lparr> skill = Some sk, rq_parts = [DataPart [(''signal_spec'', JStr ''x'')] None],
       rq_metadata = None, webhook = wh \<rparr>"

definition exWebhook :: A2aWebhookConfig where
  "exWebhook = \<lparr> url = ''https://hooks.example/adcp'', events = None \<rparr>"

text \<open>
  The example server after one task has been created, and after the execution of that
  task has also completed. The first uuid is \<open>u\<close>, so the task is \<open>task-u\<close>.
\<close>

definition exCreated :: "TaskStatus option \<Rightarrow> string \<Rightarrow> A2aWebhookConfig option \<Rightarrow> A2aServer" where
  "exCreated st sk wh = run [Create (exRequest sk wh) None] (exServer st)"

definition exFinished :: "TaskStatus option \<Rightarrow> string \<Rightarrow> A2aWebhookConfig option \<Rightarrow> A2aServer" where
  "exFinished st sk wh =
     run [Create (exRequest sk wh) None, ExecutionCompletes 0] (exServer st)"

text \<open>The example server after the task has been created and then cancelled.\<close>

definition exCancelled :: "TaskStatus option \<Rightarrow> string \<Rightarrow> A2aWebhookConfig option \<Rightarrow> A2aServer" where
  "exCancelled st sk wh =
     run [Create (exRequest sk wh) None, Cancel ''task-u''] (exServer st)"


section \<open>Unfolding the operations\<close>

lemmas server_defs =
  run_def createTask_def continueTask_def cancelTask_def subscribeToTask_def unsubscribe_def
  completeExecution_def processTaskResume_def processTaskStart_def processTaskSuccess_def
  processTaskFailure_def completeTask_def failTask_def sendWebhook_def setTask_def
  responseOf_def uuid_def newDate_def callListener_def setAdd_def setDelete_def
  subscribersOf_def newServer_def Let_def

lemmas skill_defs =
  parseSkillInvocation_def skillOrDefault_def executeSkill_def route_def shaped_def
  statusOrCompleted_def pick_def getprop_def asRecord_def spread_def

lemmas effect_defs =
  completeTask_def failTask_def uuid_def newDate_def setTask_def sendWebhook_def Let_def

lemmas example_defs =
  exServer_def exHandlers_def exResponse_def exRequest_def exWebhook_def
  exCreated_def exFinished_def exCancelled_def exThrowing_def

text \<open>
  The loop of \<^verbatim>\<open>emitEvent\<close> calls every listener of the list once, in order, whether
  the calls throw or not.
\<close>

lemma emitLoop_eq: "emitLoop ls ev s = s\<lparr>delivered := delivered s @ map (\<lambda>l. (l, ev)) ls\<rparr>"
  by (induction ls arbitrary: s) (auto simp: callListener_def split: option.splits)

lemma emitEvent_eq:
  "emitEvent taskId ev s =
     s\<lparr>emitted := emitted s @ [(taskId, ev)],
       delivered := delivered s @ map (\<lambda>l. (l, ev)) (subscribersOf s taskId)\<rparr>"
  by (simp add: emitEvent_def emitLoop_eq subscribersOf_def Let_def split: option.splits)

lemma tasks_emitEvent [simp]: "tasks (emitEvent t ev s) = tasks s"
  by (simp add: emitEvent_eq)

lemma completeTask_tasks:
  "tasks (completeTask task msg st s) =
     (tasks s)(id task \<mapsto>
        task\<lparr> messages := messages task @ [msg],
              status := \<lparr> state = st,
                          message = Some (if st = Completed then ''Task completed successfully''
                                          else ''Processing''),
                          progress = None, timestamp = clock s (dateCalls s) \<rparr>,
              updated_at := clock s (dateCalls s) \<rparr>)"
  by (simp add: completeTask_def newDate_def setTask_def Let_def)

lemma tasks_subscribeToTask: "tasks (snd (subscribeToTask taskId l s)) = tasks s"
  by (simp add: subscribeToTask_def newDate_def callListener_def Let_def
        split: option.splits prod.splits)

lemma tasks_unsubscribe: "tasks (unsubscribe u s) = tasks s"
  by (simp add: unsubscribe_def Let_def)


section \<open>Properties of the parser\<close>

lemma map_of_spread: "map_of (spread a b) = map_of a ++ map_of (rev b)"
  unfolding spread_def
proof (induction b arbitrary: a)
  case Nil
  show ?case by simp
next
  case (Cons p b)
  obtain k v where p: "p = (k, v)" by (cases p)
  have "map_of (fold (\<lambda>(k, v). AList.update k v) b (AList.update k v a))
          = map_of (AList.update k v a) ++ map_of (rev b)"
    by (rule Cons.IH)
  also have "\<dots> = map_of a ++ (map_of (rev b @ [(k, v)]))"
    by (simp add: update_conv' map_add_upd_left fun_eq_iff map_add_def split: option.splits)
  finally show ?case by (simp add: p)
qed

lemma parseLoop_spec:
  "parseLoop ps (params, ctx, fs) = (params', ctx', fs') \<Longrightarrow>
     map_of params' = map_of params ++ map_of (rev (concat (dataOf ps)))
   \<and> ctx' = (if textsOf ps = [] then ctx else Some (last (textsOf ps)))
   \<and> fs' = fs @ filesOf ps"
proof (induction ps "(params, ctx, fs)" arbitrary: params ctx fs rule: parseLoop.induct)
  case 1
  then show ?case by simp
next
  case (2 t ps params ctx fs)
  from 2 show ?case by auto
next
  case (3 d m ps params ctx fs)
  from 3 show ?case by (auto simp: map_of_spread)
next
  case (4 f ps params ctx fs)
  from 4 show ?case by auto
qed

lemma parseSkillInvocation_fields:
  "inv_context (parseSkillInvocation request) = lastOpt (textsOf (rq_parts request))
   \<and> map_of (inv_parameters (parseSkillInvocation request))
        = map_of (rev (concat (dataOf (rq_parts request))))
   \<and> inv_files (parseSkillInvocation request)
        = (if filesOf (rq_parts request) = [] then None else Some (filesOf (rq_parts request)))
   \<and> inv_skill (parseSkillInvocation request) = skillOrDefault (skill request)"
proof -
  obtain params ctx fs where
    loop: "parseLoop (rq_parts request) ([], None, []) = (params, ctx, fs)"
    by (cases "parseLoop (rq_parts request) ([], None, [])") auto
  from parseLoop_spec [OF loop] show ?thesis
    by (simp add: parseSkillInvocation_def loop lastOpt_def)
qed

text \<open>
  C5 (as amended). For every request, the parsed invocation has: as context the text of
  the LAST text part (none when there is no text part); as parameters the merge of all
  data parts in list order, a key taking the value of the last data part that binds it;
  as files all file parts in their original order (undefined when there are none); as
  skill the requested name, or \<open>default\<close>.
\<close>

theorem parseSkillInvocation_spec:
  "inv_context (parseSkillInvocation request) = lastOpt (textsOf (rq_parts request))
   \<and> map_of (inv_parameters (parseSkillInvocation request))
        = map_of (rev (concat (dataOf (rq_parts request))))
   \<and> inv_files (parseSkillInvocation request)
        = (if filesOf (rq_parts request) = [] then None else Some (filesOf (rq_parts request)))
   \<and> inv_skill (parseSkillInvocation request) = skillOrDefault (skill request)"
  by (rule parseSkillInvocation_fields)

text \<open>
  C5 as stated fails: with two text parts the context is the text of the second one,
  not of the first.
\<close>

theorem parse_context_first_counterexample:
  "inv_context (parseSkillInvocation
      \<lparr> skill = Some ''get_signals'',
        rq_parts = [TextPart ''first'', TextPart ''second''],
        rq_metadata = None, webhook = None \<rparr>)
   \<noteq> firstOpt (textsOf [TextPart ''first'', TextPart ''second''])"
  by (simp add: parseSkillInvocation_def firstOpt_def)


section \<open>Cancel (A2aServer.cancelTask)\<close>

text \<open>
  C9 (as amended). For every Cancel(taskId) call where the task does not exist or its
  state is \<open>completed\<close> or \<open>failed\<close>, Cancel returns false and leaves the whole server
  as it was: no event is published and no task is changed. (A task in state \<open>canceled\<close>
  is not covered: the guard of cancelTask names \<open>completed\<close> and \<open>failed\<close> only.)
\<close>

theorem cancelTask_noop:
  "tasks s taskId = None \<or>
     (\<exists>task. tasks s taskId = Some task
        \<and> (state (status task) = Completed \<or> state (status task) = Failed))
   \<Longrightarrow> cancelTask taskId s = (False, s)"
  by (auto simp: cancelTask_def)

theorem cancelTask_noop_witness:
  "(\<exists>task. tasks (run [Create (exRequest ''get_signals'' None) None, ExecutionCompletes 0]
                      (exServer None)) ''task-u'' = Some task
        \<and> (state (status task) = Completed \<or> state (status task) = Failed))
   \<and> cancelTask ''task-u''
        (run [Create (exRequest ''get_signals'' None) None, ExecutionCompletes 0] (exServer None))
      = (False, run [Create (exRequest ''get_signals'' None) None, ExecutionCompletes 0]
                  (exServer None))"
proof -
  have h: "\<exists>task. tasks (run [Create (exRequest ''get_signals'' None) None, ExecutionCompletes 0]
                      (exServer None)) ''task-u'' = Some task
        \<and> (state (status task) = Completed \<or> state (status task) = Failed)"
    by (simp add: server_defs skill_defs example_defs emitEvent_eq)
  from cancelTask_noop [OF disjI2, OF h] h show ?thesis by blast
qed

text \<open>
  C9 as stated fails on a task in the terminal state \<open>canceled\<close> (the status a handler
  declared): Cancel returns true, and publishes an event.
\<close>

theorem cancel_canceled_counterexample:
  "(\<exists>task. tasks (run [Create (exRequest ''get_signals'' None) None, ExecutionCompletes 0]
                      (exServer (Some Canceled))) ''task-u'' = Some task
            \<and> state (status task) = Canceled)
   \<and> fst (cancelTask ''task-u''
        (run [Create (exRequest ''get_signals'' None) None, ExecutionCompletes 0]
             (exServer (Some Canceled)))) = True
   \<and> length (emitted (snd (cancelTask ''task-u''
        (run [Create (exRequest ''get_signals'' None) None, ExecutionCompletes 0]
             (exServer (Some Canceled))))))
     = Suc (length (emitted (run [Create (exRequest ''get_signals'' None) None,
                                  ExecutionCompletes 0] (exServer (Some Canceled)))))"
  by (simp add: server_defs skill_defs example_defs emitEvent_eq)

section \<open>Continue (A2aServer.continueTask)\<close>

lemma continueTask_existing:
  assumes "tasks s taskId = Some task" and "id task = taskId"
  shows "case continueTask taskId ps princ s of
           (r, s') \<Rightarrow>
             (case tasks s' taskId of
                None \<Rightarrow> False
              | Some task' \<Rightarrow>
                  r = Some (responseOf task')
                \<and> messages task' = messages task @
                     [userMessage ps (clock s (dateCalls s)) (uuidSource s (uuidCalls s)),
                      ackMessage]
                \<and> artifacts task' = artifacts task
                \<and> state (status task') = Completed)"
  using assms
  by (simp add: continueTask_def newDate_def uuid_def setTask_def completeTask_tasks Let_def
        userMessage_def ackMessage_def split: prod.splits)

lemma continueTask_missing:
  "tasks s taskId = None \<Longrightarrow> continueTask taskId ps princ s = (None, s)"
  by (simp add: continueTask_def)

text \<open>
  C3 (as amended). Continue(taskId, newParts) is rejected only when the task does not
  exist: it then returns not-found and changes nothing. For every existing task, in a
  terminal state or not, Continue is carried out: it returns the task, appends a
  requester message with the new parts and the engine's acknowledgement message to
  \<open>messages\<close>, leaves \<open>artifacts\<close> unchanged and leaves the task in state \<open>completed\<close>.
\<close>

theorem continueTask_spec:
  "(tasks s taskId = None \<longrightarrow> continueTask taskId ps princ s = (None, s))
   \<and> (\<forall>task. tasks s taskId = Some task \<and> id task = taskId \<longrightarrow>
         (case continueTask taskId ps princ s of
            (r, s') \<Rightarrow>
              (case tasks s' taskId of
                 None \<Rightarrow> False
               | Some task' \<Rightarrow>
                   r = Some (responseOf task')
                 \<and> messages task' = messages task @
                      [userMessage ps (clock s (dateCalls s)) (uuidSource s (uuidCalls s)),
                       ackMessage]
                 \<and> artifacts task' = artifacts task
                 \<and> state (status task') = Completed)))"
proof (intro conjI allI impI)
  assume "tasks s taskId = None"
  then show "continueTask taskId ps princ s = (None, s)" by (rule continueTask_missing)
next
  fix task
  assume "tasks s taskId = Some task \<and> id task = taskId"
  then show "case continueTask taskId ps princ s of
            (r, s') \<Rightarrow>
              (case tasks s' taskId of
                 None \<Rightarrow> False
               | Some task' \<Rightarrow>
                   r = Some (responseOf task')
                 \<and> messages task' = messages task @
                      [userMessage ps (clock s (dateCalls s)) (uuidSource s (uuidCalls s)),
                       ackMessage]
                 \<and> artifacts task' = artifacts task
                 \<and> state (status task') = Completed)"
    by (intro continueTask_existing) simp_all
qed

theorem continueTask_spec_witness:
  "continueTask ''task-u'' [TextPart ''more''] None (exServer None) = (None, exServer None)
   \<and> (\<exists>task'. tasks (snd (continueTask ''task-u'' [TextPart ''more''] None
                              (exCreated None ''get_signals'' None))) ''task-u'' = Some task'
         \<and> state (status task') = Completed \<and> map role (messages task') = [User, User, Agent])"
proof -
  let ?s = "exCreated None ''get_signals'' None"
  let ?t = "the (tasks ?s ''task-u'')"
  have 0: "tasks (exServer None) ''task-u'' = None"
    by (simp add: server_defs example_defs)
  have 1: "tasks ?s ''task-u'' = Some ?t \<and> id ?t = ''task-u''"
    by (simp add: server_defs example_defs)
  have 2: "map role (messages ?t) = [User]"
    by (simp add: server_defs example_defs)
  note spec0 = continueTask_spec [of "exServer None" "''task-u''" "[TextPart ''more'']" None]
  note spec1 = continueTask_spec [of ?s "''task-u''" "[TextPart ''more'']" None]
  from spec0 [THEN conjunct1, rule_format, OF 0]
  have a: "continueTask ''task-u'' [TextPart ''more''] None (exServer None) = (None, exServer None)" .
  obtain r s' where c: "continueTask ''task-u'' [TextPart ''more''] None ?s = (r, s')"
    by (cases "continueTask ''task-u'' [TextPart ''more''] None ?s")
  from spec1 [THEN conjunct2, rule_format, OF 1]
  have b: "case tasks s' ''task-u'' of
             None \<Rightarrow> False
           | Some task' \<Rightarrow>
               r = Some (responseOf task')
             \<and> messages task' = messages ?t @
                  [userMessage [TextPart ''more''] (clock ?s (dateCalls ?s))
                     (uuidSource ?s (uuidCalls ?s)), ackMessage]
             \<and> artifacts task' = artifacts ?t
             \<and> state (status task') = Completed"
    unfolding c by simp
  then obtain task' where t: "tasks s' ''task-u'' = Some task'"
    and m: "messages task' = messages ?t @
                  [userMessage [TextPart ''more''] (clock ?s (dateCalls ?s))
                     (uuidSource ?s (uuidCalls ?s)), ackMessage]"
    and st: "state (status task') = Completed"
    by (cases "tasks s' ''task-u''") simp_all
  from m 2 have "map role (messages task') = [User, User, Agent]"
    by (simp add: userMessage_def ackMessage_def)
  with t st c a show ?thesis by simp
qed

text \<open>
  C3 as stated fails: on a task that is \<open>completed\<close>, Continue is not rejected; it
  returns the task and the task has two more messages.
\<close>

theorem continue_terminal_counterexample:
  "map_option (\<lambda>t. (state (status t), length (messages t)))
     (tasks (run [Create (exRequest ''get_signals'' None) None, ExecutionCompletes 0]
              (exServer None)) ''task-u'')
     = Some (Completed, 2)
   \<and> fst (continueTask ''task-u'' [TextPart ''more''] None
        (run [Create (exRequest ''get_signals'' None) None, ExecutionCompletes 0]
           (exServer None))) \<noteq> None
   \<and> map_option (\<lambda>t. (state (status t), length (messages t)))
       (tasks (run [Create (exRequest ''get_signals'' None) None, ExecutionCompletes 0,
                    Continue ''task-u'' [TextPart ''more''] None]
                (exServer None)) ''task-u'')
     = Some (Completed, 4)"
  by (simp add: server_defs skill_defs example_defs emitEvent_eq)

section \<open>The terminal states\<close>

lemma cancelTask_other:
  assumes "tasksKeyed s" and "tasks s k = Some t"
    and "state (status t) = Completed \<or> state (status t) = Failed"
  shows "tasks (snd (cancelTask taskId s)) k = Some t"
proof (cases "tasks s taskId")
  case None
  then show ?thesis using assms by (simp add: cancelTask_def)
next
  case (Some task)
  with assms(1) have idt: "id task = taskId" by (simp add: tasksKeyed_def)
  show ?thesis
  proof (cases "state (status task) = Completed \<or> state (status task) = Failed")
    case True
    then show ?thesis using Some assms by (auto simp: cancelTask_def)
  next
    case False
    with Some assms have "k \<noteq> taskId" by auto
    with False Some idt assms show ?thesis
      by (simp add: cancelTask_def newDate_def setTask_def Let_def)
  qed
qed

lemma cancelTask_keyed:
  assumes "tasksKeyed s"
  shows "tasksKeyed (snd (cancelTask taskId s))"
proof (cases "tasks s taskId")
  case None
  then show ?thesis using assms by (simp add: cancelTask_def)
next
  case (Some task)
  with assms have idt: "id task = taskId" by (simp add: tasksKeyed_def)
  with Some assms show ?thesis
    by (auto simp: cancelTask_def newDate_def setTask_def Let_def tasksKeyed_def)
qed

lemma processTaskSuccess_task:
  "case tasks (processTaskSuccess task result wh s) (id task) of
     None \<Rightarrow> False
   | Some task' \<Rightarrow>
       messages task' = messages task @
         [responseMessage result (clock s (dateCalls s)) (uuidSource s (uuidCalls s))]
     \<and> state (status task') = sr_status result"
  by (simp add: processTaskSuccess_def newDate_def uuid_def setTask_def completeTask_tasks Let_def
        sendWebhook_def responseMessage_def split: prod.splits option.splits)

lemma completeExecution_returns:
  assumes "n < length (suspended s)"
    and "tasks s (sp_task (suspended s ! n)) = Some t" and "id t = sp_task (suspended s ! n)"
    and "executeSkill (handlers s) (sp_invocation (suspended s ! n))
           (sp_principal (suspended s ! n)) = Inr result"
  shows "case tasks (completeExecution n s) (sp_task (suspended s ! n)) of
           None \<Rightarrow> False
         | Some t' \<Rightarrow>
             messages t' = messages t @
               [responseMessage result (clock s (dateCalls s)) (uuidSource s (uuidCalls s))]
           \<and> state (status t') = sr_status result"
proof -
  let ?s = "s\<lparr>suspended := take n (suspended s) @ drop (Suc n) (suspended s)\<rparr>"
  have "completeExecution n s = processTaskSuccess t result (sp_webhook (suspended s ! n)) ?s"
    using assms by (simp add: completeExecution_def processTaskResume_def)
  with processTaskSuccess_task [where task = t and result = result
         and wh = "sp_webhook (suspended s ! n)" and s = ?s] assms(3)
  show ?thesis by (simp split: option.splits)
qed

section \<open>Execution (A2aServer.processTask)\<close>

lemma processTaskFailure_eq:
  "processTaskFailure task err wh s =
     (let now = clock s (dateCalls s);
          st = \<lparr> state = Failed, message = Some (errorMessage err),
                 progress = None, timestamp = now \<rparr>;
          ev = \<lparr> ev_data = ErrorEv (errorCode err) (errorMessage err), ev_timestamp = now \<rparr>;
          s1 = s\<lparr> dateCalls := Suc (dateCalls s),
                  tasks := (tasks s)(id task \<mapsto> task\<lparr>status := st, updated_at := now\<rparr>),
                  emitted := emitted s @ [(id task, ev)],
                  delivered := delivered s @ map (\<lambda>l. (l, ev)) (subscribersOf s (id task)) \<rparr>
      in case wh of
           None \<Rightarrow> s1
         | Some config \<Rightarrow>
             s1\<lparr> dateCalls := Suc (Suc (dateCalls s)),
                 webhookLog := webhookLog s @
                   [(config, \<lparr> wp_task_id = id task, wp_event = EvFailed, wp_status = st,
                               wp_timestamp = clock s (Suc (dateCalls s)),
                               wp_data = None \<rparr>)] \<rparr>)"
  by (simp add: processTaskFailure_def failTask_def newDate_def setTask_def emitEvent_eq
        sendWebhook_def subscribersOf_def Let_def split: option.splits)

lemma route_handler_throws:
  "method handler params princ = Inl e \<Longrightarrow>
     route (Some handler) notEnabled method params princ shape = Inl e"
  by (simp add: route_def)

lemma route_handler_absent:
  "route None notEnabled method params princ shape = Inl (AdcpError ''NOT_IMPLEMENTED'' notEnabled)"
  by (simp add: route_def)



section \<open>Webhooks (A2aServer.sendWebhook and its callers)\<close>

lemma webhookLog_emitEvent [simp]: "webhookLog (emitEvent t ev s) = webhookLog s"
  by (simp add: emitEvent_eq)

lemma webhookLog_completeTask [simp]: "webhookLog (completeTask task msg st s) = webhookLog s"
  by (simp add: completeTask_def newDate_def setTask_def Let_def)









lemma suspended_emitEvent [simp]: "suspended (emitEvent t ev s) = suspended s"
  by (simp add: emitEvent_eq)

lemma suspended_processTaskResume: "suspended (processTaskResume sp s) = suspended s"
  by (simp add: processTaskResume_def processTaskSuccess_def processTaskFailure_eq
        completeTask_def newDate_def uuid_def setTask_def sendWebhook_def Let_def
        split: option.splits sum.splits prod.splits)

lemma attempts_suspended [simp]: "attempts (s\<lparr>suspended := x\<rparr>) = attempts s"
  by (simp add: attempts_def)





section \<open>Create Task (A2aServer.createTask)\<close>

lemma executeSkill_unknown:
  assumes "inv_skill invocation \<notin> set routedSkills"
    and "\<not> contextTruthy (inv_context invocation)"
  shows "executeSkill hs invocation princ =
           Inl (AdcpError ''NOT_IMPLEMENTED'' (''Unknown skill: '' @ inv_skill invocation))"
  using assms
  by (simp add: executeSkill_def routedSkills_def contextTruthy_def Let_def split: option.splits)

lemma createTask_eq:
  "createTask request princ s =
     (let taskId = ''task-'' @ uuidSource s (uuidCalls s);
          now = clock s (dateCalls s);
          st = \<lparr> state = Working, message = Some ''Processing request'',
                 progress = None, timestamp = now \<rparr>;
          task =
            \<lparr> id = taskId, status = st,
              messages =
                [\<lparr> role = User, parts = rq_parts request,
                   metadata = Some \<lparr> mm_timestamp = Some now,
                                     message_id = Some (''msg-'' @ uuidSource s (Suc (uuidCalls s))),
                                     correlation_id =
                                       (case rq_metadata request of
                                          None \<Rightarrow> None
                                        | Some m \<Rightarrow> rq_correlation_id m) \<rparr> \<rparr>],
              artifacts = [], created_at = now, updated_at = now,
              task_metadata =
                \<lparr> tm_skill = skill request,
                  tm_principal_id = map_option principal_id princ,
                  tm_context_id =
                    (case rq_metadata request of
                       None \<Rightarrow> None
                     | Some m \<Rightarrow> rq_context_id m) \<rparr> \<rparr>
      in (\<lparr> task_id = taskId, rs_status = st, rs_messages = None, rs_artifacts = None \<rparr>,
          s\<lparr> uuidCalls := Suc (Suc (uuidCalls s)),
             dateCalls := Suc (dateCalls s),
             tasks := (tasks s)(taskId \<mapsto> task),
             suspended := suspended s @
               [\<lparr> sp_task = taskId, sp_invocation = parseSkillInvocation request,
                  sp_principal = princ, sp_webhook = webhook request \<rparr>] \<rparr>))"
  by (simp add: createTask_def uuid_def newDate_def setTask_def processTaskStart_def Let_def)

text \<open>
  C4 (as amended). Create Task never raises and rejects no request: for every request -
  also one whose Parts list is empty, or whose skill is not one the engine routes and
  which has no non-empty text Part - it returns a task id and the status \<open>working\<close>, a
  Task record in state \<open>working\<close> holding the inbound message is stored under that id,
  and one execution is started; nothing is published yet. When the skill is not routed
  and there is no non-empty text Part, the execution then fails the stored task: its
  state becomes \<open>failed\<close> and an error event with code \<open>NOT_IMPLEMENTED\<close> is published
  (the failure is a created-then-failed task).
\<close>

theorem createTask_never_rejects:
  "case createTask request princ s of
     (r, s1) \<Rightarrow>
       task_id r = ''task-'' @ uuidSource s (uuidCalls s)
     \<and> state (rs_status r) = Working
     \<and> (case tasks s1 (task_id r) of
          None \<Rightarrow> False
        | Some task \<Rightarrow>
            id task = task_id r \<and> state (status task) = Working
          \<and> map (\<lambda>m. (role m, parts m)) (messages task) = [(User, rq_parts request)])
     \<and> suspended s1 = suspended s @
          [\<lparr> sp_task = task_id r, sp_invocation = parseSkillInvocation request,
             sp_principal = princ, sp_webhook = webhook request \<rparr>]
     \<and> emitted s1 = emitted s \<and> delivered s1 = delivered s
     \<and> (skillOrDefault (skill request) \<notin> set routedSkills
          \<and> \<not> contextTruthy (lastOpt (textsOf (rq_parts request)))
        \<longrightarrow>
          (case tasks (completeExecution (length (suspended s)) s1) (task_id r) of
             None \<Rightarrow> False
           | Some task \<Rightarrow>
               state (status task) = Failed
             \<and> message (status task) =
                 Some (''Unknown skill: '' @ skillOrDefault (skill request)))
        \<and> map (\<lambda>(k, ev). (k, summary ev))
             (emitted (completeExecution (length (suspended s)) s1))
           = map (\<lambda>(k, ev). (k, summary ev)) (emitted s)
             @ [(task_id r, (TError, None, None, Some ''NOT_IMPLEMENTED''))])"
proof -
  let ?inv = "parseSkillInvocation request"
  have unknown:
    "executeSkill (handlers s) ?inv princ =
       Inl (AdcpError ''NOT_IMPLEMENTED'' (''Unknown skill: '' @ skillOrDefault (skill request)))"
    if "skillOrDefault (skill request) \<notin> set routedSkills"
      and "\<not> contextTruthy (lastOpt (textsOf (rq_parts request)))"
    using executeSkill_unknown [of ?inv "handlers s" princ] that
      parseSkillInvocation_fields [of request]
    by simp
  show ?thesis
    unfolding createTask_eq
    by (auto simp: Let_def completeExecution_def processTaskResume_def processTaskFailure_eq
          unknown nth_append split: option.splits)
qed

theorem createTask_never_rejects_witness:
  "(case createTask \<lparr> skill = Some ''bogus'', rq_parts = [], rq_metadata = None, webhook = None \<rparr>
          None (exServer None) of
      (r, s1) \<Rightarrow>
        task_id r = ''task-u''
      \<and> map_option (\<lambda>t. state (status t)) (tasks s1 ''task-u'') = Some Working
      \<and> map_option (\<lambda>t. state (status t)) (tasks (completeExecution 0 s1) ''task-u'')
          = Some Failed
      \<and> map (\<lambda>(k, ev). (k, summary ev)) (emitted (completeExecution 0 s1))
          = [(''task-u'', (TError, None, None, Some ''NOT_IMPLEMENTED''))])"
proof -
  let ?rq = "\<lparr> skill = Some ''bogus'', rq_parts = [], rq_metadata = None, webhook = None \<rparr>"
  have 1: "skillOrDefault (skill ?rq) \<notin> set routedSkills
          \<and> \<not> contextTruthy (lastOpt (textsOf (rq_parts ?rq)))"
    by (simp add: skillOrDefault_def routedSkills_def contextTruthy_def lastOpt_def)
  have 2: "uuidSource (exServer None) (uuidCalls (exServer None)) = ''u''
          \<and> suspended (exServer None) = [] \<and> emitted (exServer None) = []"
    by (simp add: server_defs example_defs)
  from createTask_never_rejects [where request = ?rq and princ = None and s = "exServer None"] 1 2
  show ?thesis
    by (auto split: prod.splits option.splits)
qed

text \<open>
  C4 as stated fails: a request with no Parts and a skill that is not routed raises
  nothing; the call returns a task id, and a Task is stored under it.
\<close>

theorem create_empty_parts_counterexample:
  "task_id (fst (createTask
       \<lparr> skill = Some ''bogus'', rq_parts = [], rq_metadata = None, webhook = None \<rparr>
       None (exServer None))) = ''task-u''
   \<and> tasks (snd (createTask
       \<lparr> skill = Some ''bogus'', rq_parts = [], rq_metadata = None, webhook = None \<rparr>
       None (exServer None))) ''task-u'' \<noteq> None"
  by (simp add: server_defs example_defs)

section \<open>Subscribers and the order of events\<close>




lemma subscribersOf_frame [simp]:
  "subscribersOf (s\<lparr>suspended := x1\<rparr>) = subscribersOf s"
  "subscribersOf (s\<lparr>tasks := x2\<rparr>) = subscribersOf s"
  "subscribersOf (s\<lparr>dateCalls := x3\<rparr>) = subscribersOf s"
  "subscribersOf (s\<lparr>uuidCalls := x4\<rparr>) = subscribersOf s"
  "subscribersOf (s\<lparr>delivered := x5\<rparr>) = subscribersOf s"
  "subscribersOf (s\<lparr>emitted := x6\<rparr>) = subscribersOf s"
  "subscribersOf (s\<lparr>webhookLog := x7\<rparr>) = subscribersOf s"
  by (simp_all add: subscribersOf_def fun_eq_iff split: option.splits)

lemma fanout_suspended [simp]: "fanout (s\<lparr>suspended := x\<rparr>) = fanout s"
  by (simp add: fanout_def fun_eq_iff)

lemma fanout_simps [simp]:
  "fanout s [] = []"
  "fanout s ((t, ev) # evs) = map (\<lambda>l. (l, ev)) (subscribersOf s t) @ fanout s evs"
  by (simp_all add: fanout_def)

lemma fans_createTask: "fans s (snd (createTask request princ s))"
  by (simp add: fans_def createTask_def processTaskStart_def effect_defs)

lemma fans_cancelTask: "fans s (snd (cancelTask taskId s))"
  by (simp add: fans_def cancelTask_def effect_defs emitEvent_eq split: option.splits)

lemma fans_continueTask: "fans s (snd (continueTask taskId ps princ s))"
  by (cases "tasks s taskId")
     (simp_all add: fans_def continueTask_def effect_defs emitEvent_eq)

lemma fans_processTaskSuccess: "fans s (processTaskSuccess task result wh s)"
proof (cases "sr_artifact result")
  case None
  then show ?thesis
    by (cases wh)
       (simp_all add: fans_def processTaskSuccess_def effect_defs emitEvent_eq)
next
  case (Some a)
  obtain nm dat where a: "a = (nm, dat)" by (cases a)
  from Some a show ?thesis
    by (cases wh)
       (simp_all add: fans_def processTaskSuccess_def effect_defs emitEvent_eq)
qed

lemma fans_processTaskFailure: "fans s (processTaskFailure task err wh s)"
  by (cases wh)
     (simp_all add: fans_def processTaskFailure_eq Let_def)

lemma fans_suspended: "fans (s\<lparr>suspended := x\<rparr>) s' \<Longrightarrow> fans s s'"
  by (simp add: fans_def)

lemma fans_refl: "fans s s"
  by (simp add: fans_def)

lemma fans_completeExecution: "fans s (completeExecution n s)"
proof (cases "n < length (suspended s)")
  case False
  then show ?thesis by (simp add: completeExecution_def fans_refl)
next
  case True
  let ?s = "s\<lparr>suspended := take n (suspended s) @ drop (Suc n) (suspended s)\<rparr>"
  have "fans ?s (processTaskResume (suspended s ! n) ?s)"
    unfolding processTaskResume_def
    by (auto intro: fans_processTaskSuccess fans_processTaskFailure fans_refl
          split: option.splits sum.splits)
  then have "fans s (processTaskResume (suspended s ! n) ?s)" by (rule fans_suspended)
  with True show ?thesis by (simp add: completeExecution_def)
qed







lemma fans_exec: "\<not> changesSubscribers st \<Longrightarrow> fans s (exec st s)"
  by (cases st)
     (simp_all add: fans_createTask fans_continueTask fans_cancelTask fans_completeExecution
        fans_refl)













section \<open>Subscribe and unsubscribe (A2aServer.subscribeToTask)\<close>

lemma subscribeToTask_unknown_task:
  assumes "tasks s taskId = None"
  shows "fst (subscribeToTask taskId l s)
           = Inr \<lparr> un_listeners = (case taskListeners s taskId of
                                      None \<Rightarrow> nextSet s | Some a \<Rightarrow> a),
                   un_listener = l, un_taskId = taskId \<rparr>"
    and "delivered (snd (subscribeToTask taskId l s)) = delivered s"
    and "l \<in> set (subscribersOf (snd (subscribeToTask taskId l s)) taskId)"
  using assms
  by (simp_all add: subscribeToTask_def subscribersOf_def setAdd_def Let_def
        split: option.splits)

lemma unsubscribe_again: "unsubscribe u (unsubscribe u s) = unsubscribe u s"
  by (simp add: unsubscribe_def setDelete_def Let_def)

text \<open>
  C10. The claim holds of the code but for its last part. A function returned by
  Subscribe keeps the listener set it was made for. Once that set has been emptied and
  removed from the table, and another listener has subscribed to the same task id (a
  new set), calling the old function again finds its own set empty and removes the
  table entry of the task id - the entry of the new set. Here listener 1 subscribes to
  \<open>task-u\<close> and unsubscribes, listener 2 subscribes, and listener 1's function is
  called a second time: listener 2 is no longer registered and misses the events of
  the task, which it receives when the second call is not made.
\<close>

theorem stale_unsubscribe_removes_new_subscriber:
  "fst (subscribeToTask ''task-u'' 1 (exServer None))
     = Inr \<lparr> un_listeners = 0, un_listener = 1, un_taskId = ''task-u'' \<rparr>
   \<and> subscribersOf
        (run [Subscribe ''task-u'' 1,
              Unsub \<lparr> un_listeners = 0, un_listener = 1, un_taskId = ''task-u'' \<rparr>,
              Subscribe ''task-u'' 2] (exServer None)) ''task-u'' = [2]
   \<and> subscribersOf
        (run [Subscribe ''task-u'' 1,
              Unsub \<lparr> un_listeners = 0, un_listener = 1, un_taskId = ''task-u'' \<rparr>,
              Subscribe ''task-u'' 2,
              Unsub \<lparr> un_listeners = 0, un_listener = 1, un_taskId = ''task-u'' \<rparr>]
           (exServer None)) ''task-u'' = []
   \<and> map ev_type (received 2
        (run [Subscribe ''task-u'' 1,
              Unsub \<lparr> un_listeners = 0, un_listener = 1, un_taskId = ''task-u'' \<rparr>,
              Subscribe ''task-u'' 2,
              Create (exRequest ''get_signals'' None) None, ExecutionCompletes 0]
           (exServer None))) = [TMessage, TComplete]
   \<and> received 2
        (run [Subscribe ''task-u'' 1,
              Unsub \<lparr> un_listeners = 0, un_listener = 1, un_taskId = ''task-u'' \<rparr>,
              Subscribe ''task-u'' 2,
              Unsub \<lparr> un_listeners = 0, un_listener = 1, un_taskId = ''task-u'' \<rparr>,
              Create (exRequest ''get_signals'' None) None, ExecutionCompletes 0]
           (exServer None)) = []"
  by (simp add: server_defs skill_defs example_defs emitEvent_eq received_def ev_type_def)

section \<open>The reachable states are well formed\<close>

lemma tasksKeyed_processTaskSuccess:
  assumes "tasksKeyed s"
  shows "tasksKeyed (processTaskSuccess task result wh s)"
proof (cases "sr_artifact result")
  case None
  with assms show ?thesis
    by (cases wh) (auto simp: tasksKeyed_def processTaskSuccess_def effect_defs emitEvent_eq)
next
  case (Some a)
  obtain nm dat where a: "a = (nm, dat)" by (cases a)
  from Some a assms show ?thesis
    by (cases wh) (auto simp: tasksKeyed_def processTaskSuccess_def effect_defs emitEvent_eq)
qed

lemma tasksKeyed_processTaskFailure:
  assumes "tasksKeyed s"
  shows "tasksKeyed (processTaskFailure task err wh s)"
  using assms
  by (cases wh) (auto simp: tasksKeyed_def processTaskFailure_eq Let_def)

lemma tasksKeyed_processTaskResume:
  assumes "tasksKeyed s"
  shows "tasksKeyed (processTaskResume sp s)"
  using assms
  by (simp add: processTaskResume_def tasksKeyed_processTaskSuccess
        tasksKeyed_processTaskFailure split: option.splits sum.splits)

lemma tasksKeyed_exec:
  assumes "tasksKeyed s"
  shows "tasksKeyed (exec st s)"
proof (cases st)
  case (Create request princ)
  with assms show ?thesis
    by (auto simp: tasksKeyed_def createTask_eq Let_def)
next
  case (Continue taskId ps princ)
  show ?thesis
  proof (cases "tasks s taskId")
    case None
    with Continue assms show ?thesis by (simp add: continueTask_def)
  next
    case (Some task)
    with assms have "id task = taskId" by (simp add: tasksKeyed_def)
    with Some Continue assms show ?thesis
      by (auto simp: tasksKeyed_def continueTask_def effect_defs emitEvent_eq)
  qed
next
  case (Cancel taskId)
  with assms show ?thesis by (simp add: cancelTask_keyed)
next
  case (Subscribe taskId l)
  with assms show ?thesis by (simp add: tasks_subscribeToTask tasksKeyed_def)
next
  case (Unsub u)
  with assms show ?thesis by (simp add: tasks_unsubscribe tasksKeyed_def)
next
  case (Get taskId)
  with assms show ?thesis by simp
next
  case (ExecutionCompletes n)
  have "tasksKeyed (s\<lparr>suspended := take n (suspended s) @ drop (Suc n) (suspended s)\<rparr>)"
    using assms by (simp add: tasksKeyed_def)
  from tasksKeyed_processTaskResume [OF this] assms ExecutionCompletes show ?thesis
    by (simp add: completeExecution_def)
qed

lemma setsDistinct_exec:
  assumes "setsDistinct s"
  shows "setsDistinct (exec st s)"
proof (cases "changesSubscribers st")
  case False
  from fans_exec [OF False, of s] assms show ?thesis
    by (simp add: fans_def setsDistinct_def)
next
  case True
  then show ?thesis
  proof (cases st)
    case (Subscribe taskId l)
    with assms show ?thesis
      by (auto simp: setsDistinct_def subscribeToTask_def newDate_def callListener_def
            setAdd_def Let_def split: option.splits prod.splits)
  next
    case (Unsub u)
    with assms show ?thesis
      by (auto simp: setsDistinct_def unsubscribe_def setDelete_def Let_def distinct_removeAll)
  qed simp_all
qed

lemma tasks_kept_processTaskSuccess:
  "\<exists>t. tasks s k = Some t \<Longrightarrow> \<exists>t. tasks (processTaskSuccess task result wh s) k = Some t"
proof (cases "sr_artifact result")
  case None
  assume "\<exists>t. tasks s k = Some t"
  with None show ?thesis
    by (cases wh) (auto simp: processTaskSuccess_def effect_defs emitEvent_eq)
next
  case (Some a)
  assume k: "\<exists>t. tasks s k = Some t"
  obtain nm dat where a: "a = (nm, dat)" by (cases a)
  from Some a k show ?thesis
    by (cases wh) (auto simp: processTaskSuccess_def effect_defs emitEvent_eq)
qed

lemma tasks_kept_processTaskResume:
  "\<exists>t. tasks s k = Some t \<Longrightarrow> \<exists>t. tasks (processTaskResume sp s) k = Some t"
  by (auto simp: processTaskResume_def processTaskFailure_eq Let_def
        tasks_kept_processTaskSuccess split: option.splits sum.splits)

lemma suspended_quiet:
  "suspended (snd (continueTask taskId ps princ s)) = suspended s"
  "suspended (snd (cancelTask taskId s)) = suspended s"
  "suspended (snd (subscribeToTask taskId l s)) = suspended s"
  "suspended (unsubscribe u s) = suspended s"
  by (simp_all add: continueTask_def cancelTask_def subscribeToTask_def unsubscribe_def
        callListener_def effect_defs emitEvent_eq split: option.splits prod.splits)

lemma tasks_kept_exec: "\<exists>t. tasks s k = Some t \<Longrightarrow> \<exists>t. tasks (exec st s) k = Some t"
proof (cases st)
  case (Create request princ)
  assume "\<exists>t. tasks s k = Some t"
  with Create show ?thesis by (simp add: createTask_eq Let_def)
next
  case (Continue taskId ps princ)
  assume "\<exists>t. tasks s k = Some t"
  with Continue show ?thesis
    by (cases "tasks s taskId") (auto simp: continueTask_def effect_defs emitEvent_eq)
next
  case (Cancel taskId)
  assume "\<exists>t. tasks s k = Some t"
  with Cancel show ?thesis
    by (cases "tasks s taskId") (auto simp: cancelTask_def effect_defs emitEvent_eq)
next
  case (Subscribe taskId l)
  assume "\<exists>t. tasks s k = Some t"
  with Subscribe show ?thesis by (simp add: tasks_subscribeToTask)
next
  case (Unsub u)
  assume "\<exists>t. tasks s k = Some t"
  with Unsub show ?thesis by (simp add: tasks_unsubscribe)
next
  case (Get taskId)
  assume "\<exists>t. tasks s k = Some t"
  with Get show ?thesis by simp
next
  case (ExecutionCompletes n)
  assume "\<exists>t. tasks s k = Some t"
  with ExecutionCompletes show ?thesis
    by (simp add: completeExecution_def tasks_kept_processTaskResume)
qed

lemma pendingStored_exec:
  assumes "pendingStored s"
  shows "pendingStored (exec st s)"
proof -
  have sub: "set (suspended (exec st s)) \<subseteq> set (suspended s)" if "\<not> (\<exists>rq p. st = Create rq p)"
  proof (cases st)
    case (Create rq p)
    with that show ?thesis by simp
  next
    case (ExecutionCompletes n)
    have "set (take n (suspended s) @ drop (Suc n) (suspended s)) \<subseteq> set (suspended s)"
      using set_take_subset set_drop_subset by fastforce
    with ExecutionCompletes show ?thesis
      by (simp add: completeExecution_def suspended_processTaskResume)
  qed (simp_all add: suspended_quiet)
  show ?thesis
  proof (cases "\<exists>rq p. st = Create rq p")
    case True
    then obtain rq p where st: "st = Create rq p" by blast
    from assms show ?thesis
      by (auto simp: st pendingStored_def createTask_eq Let_def)
  next
    case False
    from sub [OF False] assms tasks_kept_exec [of s _ st] show ?thesis
      by (auto simp: pendingStored_def)
  qed
qed

text \<open>
  Every state the server reaches from its construction keeps each task under its own
  id, has no listener twice in a set, and has the task of every waiting execution in
  the table: the hypotheses of the properties on the stored task hold of every such
  state.
\<close>

lemma reachable_well_formed:
  "tasksKeyed (run steps (newServer hs clk uu thr))
   \<and> setsDistinct (run steps (newServer hs clk uu thr))
   \<and> pendingStored (run steps (newServer hs clk uu thr))"
proof -
  have "tasksKeyed s \<and> setsDistinct s \<and> pendingStored s
          \<Longrightarrow> tasksKeyed (run steps s) \<and> setsDistinct (run steps s) \<and> pendingStored (run steps s)"
    for s
  proof (induction steps arbitrary: s)
    case Nil
    then show ?case by (simp add: run_def)
  next
    case (Cons st steps)
    from Cons.prems
    have "tasksKeyed (exec st s) \<and> setsDistinct (exec st s) \<and> pendingStored (exec st s)"
      by (simp add: tasksKeyed_exec setsDistinct_exec pendingStored_exec)
    from Cons.IH [OF this] show ?case by (simp add: run_def)
  qed
  moreover have "tasksKeyed (newServer hs clk uu thr) \<and> setsDistinct (newServer hs clk uu thr)
      \<and> pendingStored (newServer hs clk uu thr)"
    by (simp add: tasksKeyed_def setsDistinct_def pendingStored_def newServer_def)
  ultimately show ?thesis by blast
qed

section \<open>The terminal states over runs\<close>

lemma tasks_processTaskSuccess_other:
  "k \<noteq> id task \<Longrightarrow> tasks (processTaskSuccess task result wh s) k = tasks s k"
proof (cases "sr_artifact result")
  case None
  assume "k \<noteq> id task"
  with None show ?thesis
    by (cases wh) (simp_all add: processTaskSuccess_def effect_defs emitEvent_eq)
next
  case (Some a)
  assume k: "k \<noteq> id task"
  obtain nm dat where a: "a = (nm, dat)" by (cases a)
  from Some a k show ?thesis
    by (cases wh) (simp_all add: processTaskSuccess_def effect_defs emitEvent_eq)
qed

lemma tasks_processTaskFailure_other:
  "k \<noteq> id task \<Longrightarrow> tasks (processTaskFailure task err wh s) k = tasks s k"
  by (cases wh) (simp_all add: processTaskFailure_eq Let_def)

lemma tasks_processTaskResume_other:
  assumes "tasksKeyed s" and "sp_task sp \<noteq> k"
  shows "tasks (processTaskResume sp s) k = tasks s k"
proof (cases "tasks s (sp_task sp)")
  case None
  then show ?thesis by (simp add: processTaskResume_def)
next
  case (Some task)
  with assms have "k \<noteq> id task" by (auto simp: tasksKeyed_def)
  with Some show ?thesis
    by (simp add: processTaskResume_def tasks_processTaskSuccess_other
          tasks_processTaskFailure_other split: sum.splits)
qed

lemma tasks_continueTask_other:
  assumes "tasksKeyed s" and "taskId \<noteq> k"
  shows "tasks (snd (continueTask taskId ps princ s)) k = tasks s k"
proof (cases "tasks s taskId")
  case None
  then show ?thesis by (simp add: continueTask_def)
next
  case (Some task)
  with assms have "id task = taskId" by (simp add: tasksKeyed_def)
  with Some assms(2) show ?thesis
    by (simp add: continueTask_def effect_defs emitEvent_eq)
qed

lemma tasks_createTask_other:
  "k \<noteq> ''task-'' @ uuidSource s (uuidCalls s) \<Longrightarrow>
     tasks (snd (createTask request princ s)) k = tasks s k"
  by (simp add: createTask_eq Let_def)

lemma issued_not_next:
  assumes "idsIssued s" and "inj (uuidSource s)" and "tasks s k = Some t"
  shows "k \<noteq> ''task-'' @ uuidSource s (uuidCalls s)"
proof -
  from assms(1) assms(3) obtain i where i: "i < uuidCalls s" and k: "k = ''task-'' @ uuidSource s i"
    by (auto simp: idsIssued_def)
  from i assms(2) have "uuidSource s i \<noteq> uuidSource s (uuidCalls s)"
    by (auto dest: injD)
  with k show ?thesis by simp
qed

lemma uuid_frame_processTaskSuccess:
  "uuidSource (processTaskSuccess task result wh s) = uuidSource s"
  "uuidCalls s \<le> uuidCalls (processTaskSuccess task result wh s)"
proof -
  have "uuidSource (processTaskSuccess task result wh s) = uuidSource s
      \<and> uuidCalls s \<le> uuidCalls (processTaskSuccess task result wh s)"
  proof (cases "sr_artifact result")
    case None
    then show ?thesis
      by (cases wh) (simp_all add: processTaskSuccess_def effect_defs emitEvent_eq)
  next
    case (Some a)
    obtain nm dat where a: "a = (nm, dat)" by (cases a)
    from Some a show ?thesis
      by (cases wh) (simp_all add: processTaskSuccess_def effect_defs emitEvent_eq)
  qed
  then show "uuidSource (processTaskSuccess task result wh s) = uuidSource s"
    and "uuidCalls s \<le> uuidCalls (processTaskSuccess task result wh s)"
    by simp_all
qed

lemma uuid_frame_processTaskResume:
  "uuidSource (processTaskResume sp s) = uuidSource s"
  "uuidCalls s \<le> uuidCalls (processTaskResume sp s)"
  by (simp_all add: processTaskResume_def uuid_frame_processTaskSuccess processTaskFailure_eq
        Let_def split: option.splits sum.splits)

lemma uuid_frame_exec:
  "uuidSource (exec st s) = uuidSource s \<and> uuidCalls s \<le> uuidCalls (exec st s)"
proof (cases st)
  case (Create request princ)
  then show ?thesis by (simp add: createTask_eq Let_def)
next
  case (Continue taskId ps princ)
  then show ?thesis
    by (cases "tasks s taskId") (simp_all add: continueTask_def effect_defs emitEvent_eq)
next
  case (Cancel taskId)
  then show ?thesis
    by (cases "tasks s taskId") (simp_all add: cancelTask_def effect_defs emitEvent_eq)
next
  case (Subscribe taskId l)
  then show ?thesis
    by (simp add: subscribeToTask_def newDate_def callListener_def Let_def
          split: option.splits prod.splits)
next
  case (Unsub u)
  then show ?thesis by (simp add: unsubscribe_def Let_def)
next
  case (Get taskId)
  then show ?thesis by simp
next
  case (ExecutionCompletes n)
  let ?s = "s\<lparr>suspended := take n (suspended s) @ drop (Suc n) (suspended s)\<rparr>"
  from uuid_frame_processTaskResume [where sp = "suspended s ! n" and s = ?s] ExecutionCompletes
  show ?thesis by (simp add: completeExecution_def)
qed

text \<open>A step other than Create adds no task id to the table.\<close>

lemma tasks_new_exec:
  assumes "tasksKeyed s" and "tasks (exec st s) k = Some t'"
  shows "(\<exists>t. tasks s k = Some t)
       \<or> ((\<exists>rq p. st = Create rq p) \<and> k = ''task-'' @ uuidSource s (uuidCalls s))"
proof (cases st)
  case (Create request princ)
  with assms(2) show ?thesis
    by (cases "k = ''task-'' @ uuidSource s (uuidCalls s)") (simp_all add: tasks_createTask_other)
next
  case (Continue taskId ps princ)
  show ?thesis
  proof (cases "taskId = k")
    case True
    with assms(2) Continue show ?thesis
      by (cases "tasks s k") (simp_all add: continueTask_def)
  next
    case False
    with assms Continue show ?thesis by (simp add: tasks_continueTask_other)
  qed
next
  case (Cancel taskId)
  show ?thesis
  proof (cases "tasks s taskId")
    case None
    with assms(2) Cancel show ?thesis by (simp add: cancelTask_def)
  next
    case (Some task)
    with assms(1) have "id task = taskId" by (simp add: tasksKeyed_def)
    with Some assms(2) Cancel show ?thesis
      by (cases "k = taskId") (auto simp: cancelTask_def effect_defs emitEvent_eq split: if_splits)
  qed
next
  case (Subscribe taskId l)
  with assms(2) show ?thesis by (simp add: tasks_subscribeToTask)
next
  case (Unsub u)
  with assms(2) show ?thesis by (simp add: tasks_unsubscribe)
next
  case (Get taskId)
  with assms(2) show ?thesis by simp
next
  case (ExecutionCompletes n)
  show ?thesis
  proof (cases "n < length (suspended s)")
    case False
    with assms(2) ExecutionCompletes show ?thesis by (simp add: completeExecution_def)
  next
    case True
    let ?s = "s\<lparr>suspended := take n (suspended s) @ drop (Suc n) (suspended s)\<rparr>"
    let ?sp = "suspended s ! n"
    have keyed: "tasksKeyed ?s" using assms(1) by (simp add: tasksKeyed_def)
    show ?thesis
    proof (cases "sp_task ?sp = k")
      case same: True
      show ?thesis
      proof (cases "tasks s k")
        case None
        with same True assms(2) ExecutionCompletes show ?thesis
          by (simp add: completeExecution_def processTaskResume_def)
      next
        case (Some t)
        then show ?thesis by simp
      qed
    next
      case False
      from tasks_processTaskResume_other [OF keyed False] True assms(2) ExecutionCompletes
      show ?thesis by (simp add: completeExecution_def)
    qed
  qed
qed

lemma idsIssued_exec:
  assumes "tasksKeyed s" and "idsIssued s"
  shows "idsIssued (exec st s)"
  unfolding idsIssued_def
proof (intro allI impI)
  fix k t'
  assume t': "tasks (exec st s) k = Some t'"
  from uuid_frame_exec [of st s]
  have src: "uuidSource (exec st s) = uuidSource s" and le: "uuidCalls s \<le> uuidCalls (exec st s)"
    by simp_all
  from tasks_new_exec [OF assms(1) t']
  show "\<exists>i < uuidCalls (exec st s). k = ''task-'' @ uuidSource (exec st s) i"
  proof
    assume "\<exists>t. tasks s k = Some t"
    with assms(2) obtain i where "i < uuidCalls s" and "k = ''task-'' @ uuidSource s i"
      by (auto simp: idsIssued_def)
    with src le show ?thesis by (intro exI [of _ i]) simp
  next
    assume c: "(\<exists>rq p. st = Create rq p) \<and> k = ''task-'' @ uuidSource s (uuidCalls s)"
    then obtain rq p where st: "st = Create rq p" by blast
    have "uuidCalls s < uuidCalls (exec st s)" by (simp add: st createTask_eq Let_def)
    with c src show ?thesis by (intro exI [of _ "uuidCalls s"]) simp
  qed
qed

lemma spares_keeps:
  assumes "tasksKeyed s" and "idsIssued s" and "inj (uuidSource s)"
    and "tasks s k = Some t"
    and "state (status t) = Completed \<or> state (status t) = Failed"
    and "spares k s st"
  shows "tasks (exec st s) k = Some t"
proof (cases st)
  case (Create request princ)
  from issued_not_next [OF assms(2) assms(3) assms(4)] assms(4) Create show ?thesis
    by (simp add: tasks_createTask_other)
next
  case (Continue taskId ps princ)
  with assms(6) have "taskId \<noteq> k" by simp
  from tasks_continueTask_other [OF assms(1) this] assms(4) Continue show ?thesis by simp
next
  case (Cancel taskId)
  from cancelTask_other [OF assms(1) assms(4) assms(5)] Cancel show ?thesis by simp
next
  case (Subscribe taskId l)
  with assms(4) show ?thesis by (simp add: tasks_subscribeToTask)
next
  case (Unsub u)
  with assms(4) show ?thesis by (simp add: tasks_unsubscribe)
next
  case (Get taskId)
  with assms(4) show ?thesis by simp
next
  case (ExecutionCompletes n)
  show ?thesis
  proof (cases "n < length (suspended s)")
    case False
    with assms(4) ExecutionCompletes show ?thesis by (simp add: completeExecution_def)
  next
    case True
    let ?s = "s\<lparr>suspended := take n (suspended s) @ drop (Suc n) (suspended s)\<rparr>"
    have keyed: "tasksKeyed ?s" using assms(1) by (simp add: tasksKeyed_def)
    from True assms(6) ExecutionCompletes have other: "sp_task (suspended s ! n) \<noteq> k" by simp
    from tasks_processTaskResume_other [OF keyed other] True assms(4) ExecutionCompletes
    show ?thesis by (simp add: completeExecution_def)
  qed
qed

lemma sparing_run_keeps:
  assumes "sparing k steps s" and "tasksKeyed s" and "idsIssued s" and "inj (uuidSource s)"
    and "tasks s k = Some t"
    and "state (status t) = Completed \<or> state (status t) = Failed"
  shows "tasks (run steps s) k = Some t"
  using assms
proof (induction steps arbitrary: s)
  case Nil
  then show ?case by (simp add: run_def)
next
  case (Cons st steps)
  from Cons.prems(1) have sp: "spares k s st" and rest: "sparing k steps (exec st s)"
    by simp_all
  have k: "tasks (exec st s) k = Some t"
    by (rule spares_keeps [OF Cons.prems(2) Cons.prems(3) Cons.prems(4) Cons.prems(5)
          Cons.prems(6) sp])
  have keyed: "tasksKeyed (exec st s)" by (rule tasksKeyed_exec [OF Cons.prems(2)])
  have issued: "idsIssued (exec st s)"
    by (rule idsIssued_exec [OF Cons.prems(2) Cons.prems(3)])
  have inj: "inj (uuidSource (exec st s))"
    using uuid_frame_exec [of st s] Cons.prems(4) by simp
  from Cons.IH [OF rest keyed issued inj k Cons.prems(6)] show ?case by (simp add: run_def)
qed


lemma uuidSource_run: "uuidSource (run steps s) = uuidSource s"
proof (induction steps arbitrary: s)
  case Nil
  show ?case by (simp add: run_def)
next
  case (Cons st steps)
  from Cons [of "exec st s"] uuid_frame_exec [of st s] show ?case by (simp add: run_def)
qed

lemma reachable_ids_issued: "idsIssued (run steps (newServer hs clk uu thr))"
proof -
  have "tasksKeyed s \<and> idsIssued s \<Longrightarrow> idsIssued (run steps s)" for s
  proof (induction steps arbitrary: s)
    case Nil
    then show ?case by (simp add: run_def)
  next
    case (Cons st steps)
    from Cons.prems have "tasksKeyed (exec st s) \<and> idsIssued (exec st s)"
      by (simp add: tasksKeyed_exec idsIssued_exec)
    from Cons.IH [OF this] show ?case by (simp add: run_def)
  qed
  moreover have "tasksKeyed (newServer hs clk uu thr) \<and> idsIssued (newServer hs clk uu thr)"
    by (simp add: tasksKeyed_def idsIssued_def newServer_def)
  ultimately show ?thesis by blast
qed

text \<open>
  C1 (as amended). For every task, once its state is \<open>completed\<close> or \<open>failed\<close>, no
  sequence of engine operations changes the task again, as long as none of them is a
  Continue on that task or the completion of a handler execution of that task: Create
  (\<^verbatim>\<open>uuid()\<close> never repeating an id), Cancel of any task, Continue and execution
  completion of other tasks, Subscribe, unsubscribe and Get Task leave the task exactly
  as it is. (Continue on the task and a handler execution of the task that finishes
  after it became terminal are not guarded by its state; they are not covered.)
\<close>

theorem terminal_task_kept:
  assumes "tasksKeyed s" and "idsIssued s" and "inj (uuidSource s)"
    and "tasks s k = Some t"
    and "state (status t) = Completed \<or> state (status t) = Failed"
    and "sparing k steps s"
  shows "tasks (run steps s) k = Some t"
  using assms(6) assms(1) assms(2) assms(3) assms(4) assms(5) by (rule sparing_run_keeps)

theorem terminal_task_kept_witness:
  "tasks (run [Create (exRequest ''get_signals'' None) None, Cancel ''task-u'',
               Continue ''task-uuuu'' [] None, ExecutionCompletes 0, Cancel ''task-uuuu'',
               Subscribe ''task-u'' 1, Get ''task-u'']
            (exFinished None ''get_signals'' None)) ''task-u''
     = tasks (exFinished None ''get_signals'' None) ''task-u''
   \<and> map_option (\<lambda>t. state (status t)) (tasks (exFinished None ''get_signals'' None) ''task-u'')
     = Some Completed
   \<and> map_option (\<lambda>t. state (status t))
       (tasks (run [Create (exRequest ''get_signals'' None) None, Cancel ''task-u'',
               Continue ''task-uuuu'' [] None]
            (exFinished None ''get_signals'' None)) ''task-uuuu'')
     = Some Completed"
proof -
  let ?f = "exFinished None ''get_signals'' None"
  let ?t = "the (tasks ?f ''task-u'')"
  let ?steps = "[Create (exRequest ''get_signals'' None) None, Cancel ''task-u'',
               Continue ''task-uuuu'' [] None, ExecutionCompletes 0, Cancel ''task-uuuu'',
               Subscribe ''task-u'' 1, Get ''task-u'']"
  have f: "?f = run [Create (exRequest ''get_signals'' None) None, ExecutionCompletes 0]
             (newServer (exHandlers None) (\<lambda>n. ''t'') (\<lambda>n. replicate (Suc n) (CHR ''u''))
                (\<lambda>l. None))"
    by (simp add: exFinished_def exServer_def)
  have 1: "tasksKeyed ?f" unfolding f using reachable_well_formed by blast
  have 2: "idsIssued ?f" unfolding f by (rule reachable_ids_issued)
  have 3: "inj (uuidSource ?f)"
    unfolding f uuidSource_run by (simp add: newServer_def inj_def)
  have 4: "tasks ?f ''task-u'' = Some ?t"
    by (simp add: server_defs skill_defs example_defs emitEvent_eq)
  have 5: "state (status ?t) = Completed \<or> state (status ?t) = Failed"
    by (simp add: server_defs skill_defs example_defs emitEvent_eq)
  have 6: "sparing ''task-u'' ?steps ?f"
    by (simp add: server_defs skill_defs example_defs emitEvent_eq)
  have 7: "map_option (\<lambda>t. state (status t)) (tasks ?f ''task-u'') = Some Completed"
    by (simp add: server_defs skill_defs example_defs emitEvent_eq)
  have 8: "map_option (\<lambda>t. state (status t))
       (tasks (run [Create (exRequest ''get_signals'' None) None, Cancel ''task-u'',
               Continue ''task-uuuu'' [] None] ?f) ''task-uuuu'') = Some Completed"
    by (simp add: server_defs skill_defs example_defs emitEvent_eq)
  from terminal_task_kept [OF 1 2 3 4 5 6] 4 7 8 show ?thesis by simp
qed

text \<open>
  C1 as stated fails: a task cancelled while its handler runs is terminal (\<open>failed\<close>);
  when the handler then returns, the task gets the response message and is
  \<open>completed\<close>.
\<close>

theorem late_completion_counterexample:
  "map_option (\<lambda>t. (state (status t), length (messages t)))
     (tasks (run [Create (exRequest ''get_signals'' None) None, Cancel ''task-u'']
              (exServer None)) ''task-u'')
     = Some (Failed, 1)
   \<and> map_option (\<lambda>t. (state (status t), length (messages t)))
       (tasks (run [Create (exRequest ''get_signals'' None) None, Cancel ''task-u'',
                    ExecutionCompletes 0]
                (exServer None)) ''task-u'')
     = Some (Completed, 2)"
  by (simp add: server_defs skill_defs example_defs emitEvent_eq)

section \<open>Cancellation and handler failure, as an observer sees them\<close>

lemma completeExecution_throws:
  assumes "n < length (suspended s)" and "suspended s ! n = sp"
    and "tasks s (sp_task sp) = Some t" and "id t = sp_task sp"
    and "executeSkill (handlers s) (sp_invocation sp) (sp_principal sp) = Inl err"
  shows "emitted (completeExecution n s) =
           emitted s @ [(sp_task sp, failureEvent err (clock s (dateCalls s)))]"
    and "map_option (\<lambda>t. state (status t)) (tasks (completeExecution n s) (sp_task sp))
           = Some Failed"
proof -
  let ?s = "s\<lparr>suspended := take n (suspended s) @ drop (Suc n) (suspended s)\<rparr>"
  have eq: "completeExecution n s = processTaskFailure t err (sp_webhook sp) ?s"
    using assms by (simp add: completeExecution_def processTaskResume_def)
  show "emitted (completeExecution n s) =
           emitted s @ [(sp_task sp, failureEvent err (clock s (dateCalls s)))]"
    unfolding eq processTaskFailure_eq using assms(4)
    by (simp add: Let_def failureEvent_def split: option.splits)
  show "map_option (\<lambda>t. state (status t)) (tasks (completeExecution n s) (sp_task sp))
           = Some Failed"
    unfolding eq processTaskFailure_eq using assms(4)
    by (simp add: Let_def split: option.splits)
qed

lemma summary_failure_cancel:
  "summary (failureEvent err now') = summary (cancelEvent now) \<longleftrightarrow> errorCode err = ''CANCELLED''"
  by (simp add: failureEvent_def cancelEvent_def)

text \<open>
  C2 (as amended). For every task that exists and whose state is neither \<open>completed\<close>
  nor \<open>failed\<close>, Cancel returns true, sets the status to state \<open>failed\<close> with the
  message \<open>Task cancelled\<close> (the state \<open>canceled\<close> is not used), and publishes one
  error event with code \<open>CANCELLED\<close> to the subscribers of the task; nothing else
  changes but the clock reading. The state does not tell a cancellation from a handler
  failure: it is \<open>failed\<close> after both. The error event of a handler failure carries
  the code of the thrown error, so without its message text it differs from the event
  of a cancellation exactly when the handler's error does not itself have the code
  \<open>CANCELLED\<close>.
\<close>

theorem cancelTask_cancels:
  assumes "tasks s taskId = Some task" and "id task = taskId"
    and "state (status task) \<noteq> Completed" and "state (status task) \<noteq> Failed"
  shows "cancelTask taskId s =
           (True,
            s\<lparr> dateCalls := Suc (dateCalls s),
               tasks := (tasks s)(taskId \<mapsto>
                  task\<lparr> status := \<lparr> state = Failed, message = Some ''Task cancelled'',
                                    progress = None, timestamp = clock s (dateCalls s) \<rparr>,
                        updated_at := clock s (dateCalls s) \<rparr>),
               emitted := emitted s @ [(taskId, cancelEvent (clock s (dateCalls s)))],
               delivered := delivered s @
                  map (\<lambda>l. (l, cancelEvent (clock s (dateCalls s)))) (subscribersOf s taskId) \<rparr>)
         \<and> summary (cancelEvent (clock s (dateCalls s))) = (TError, None, None, Some ''CANCELLED'')
         \<and> (\<forall>s' n sp t err.
               n < length (suspended s') \<and> suspended s' ! n = sp
               \<and> tasks s' (sp_task sp) = Some t \<and> id t = sp_task sp
               \<and> executeSkill (handlers s') (sp_invocation sp) (sp_principal sp) = Inl err
               \<longrightarrow>
                 emitted (completeExecution n s') =
                   emitted s' @ [(sp_task sp, failureEvent err (clock s' (dateCalls s')))]
               \<and> map_option (\<lambda>t. state (status t)) (tasks (completeExecution n s') (sp_task sp))
                   = Some Failed
               \<and> (summary (failureEvent err (clock s' (dateCalls s')))
                     = summary (cancelEvent (clock s (dateCalls s)))
                   \<longleftrightarrow> errorCode err = ''CANCELLED''))"
proof (intro conjI allI impI)
  show "cancelTask taskId s =
           (True,
            s\<lparr> dateCalls := Suc (dateCalls s),
               tasks := (tasks s)(taskId \<mapsto>
                  task\<lparr> status := \<lparr> state = Failed, message = Some ''Task cancelled'',
                                    progress = None, timestamp = clock s (dateCalls s) \<rparr>,
                        updated_at := clock s (dateCalls s) \<rparr>),
               emitted := emitted s @ [(taskId, cancelEvent (clock s (dateCalls s)))],
               delivered := delivered s @
                  map (\<lambda>l. (l, cancelEvent (clock s (dateCalls s)))) (subscribersOf s taskId) \<rparr>)"
    using assms
    by (simp add: cancelTask_def newDate_def setTask_def emitEvent_eq subscribersOf_def Let_def
          cancelEvent_def split: option.splits)
next
  show "summary (cancelEvent (clock s (dateCalls s))) = (TError, None, None, Some ''CANCELLED'')"
    by (simp add: cancelEvent_def)
next
  fix s' :: A2aServer and n sp t err
  assume a: "n < length (suspended s') \<and> suspended s' ! n = sp
               \<and> tasks s' (sp_task sp) = Some t \<and> id t = sp_task sp
               \<and> executeSkill (handlers s') (sp_invocation sp) (sp_principal sp) = Inl err"
  then have a1: "n < length (suspended s')" and a2: "suspended s' ! n = sp"
    and a3: "tasks s' (sp_task sp) = Some t" and a4: "id t = sp_task sp"
    and a5: "executeSkill (handlers s') (sp_invocation sp) (sp_principal sp) = Inl err"
    by blast+
  show "emitted (completeExecution n s') =
          emitted s' @ [(sp_task sp, failureEvent err (clock s' (dateCalls s')))]"
    by (rule completeExecution_throws(1) [OF a1 a2 a3 a4 a5])
  show "map_option (\<lambda>t. state (status t)) (tasks (completeExecution n s') (sp_task sp))
          = Some Failed"
    by (rule completeExecution_throws(2) [OF a1 a2 a3 a4 a5])
  show "summary (failureEvent err (clock s' (dateCalls s')))
          = summary (cancelEvent (clock s (dateCalls s)))
        \<longleftrightarrow> errorCode err = ''CANCELLED''"
    by (rule summary_failure_cancel)
qed

theorem cancelTask_cancels_witness:
  "fst (cancelTask ''task-u'' (exCreated None ''get_signals'' None)) = True
   \<and> map_option (\<lambda>t. state (status t))
        (tasks (snd (cancelTask ''task-u'' (exCreated None ''get_signals'' None))) ''task-u'')
     = Some Failed
   \<and> map (\<lambda>(k, ev). (k, summary ev))
        (emitted (snd (cancelTask ''task-u'' (exCreated None ''get_signals'' None))))
     = [(''task-u'', (TError, None, None, Some ''CANCELLED''))]
   \<and> map (\<lambda>(k, ev). (k, summary ev))
        (emitted (completeExecution 0
           (run [Create (exRequest ''get_signals'' None) None]
              (exThrowing (AdcpError ''INVALID_REQUEST'' ''bad'')))))
     = [(''task-u'', (TError, None, None, Some ''INVALID_REQUEST''))]"
proof -
  let ?s = "exCreated None ''get_signals'' None"
  let ?err = "AdcpError ''INVALID_REQUEST'' ''bad''"
  let ?s' = "run [Create (exRequest ''get_signals'' None) None] (exThrowing ?err)"
  let ?sp = "suspended ?s' ! 0"
  have 1: "tasks ?s ''task-u'' = Some (the (tasks ?s ''task-u''))"
    by (simp add: server_defs example_defs)
  have 2: "id (the (tasks ?s ''task-u'')) = ''task-u''"
    by (simp add: server_defs example_defs)
  have 3: "state (status (the (tasks ?s ''task-u''))) \<noteq> Completed"
    by (simp add: server_defs example_defs)
  have 4: "state (status (the (tasks ?s ''task-u''))) \<noteq> Failed"
    by (simp add: server_defs example_defs)
  have 5: "0 < length (suspended ?s') \<and> suspended ?s' ! 0 = ?sp
        \<and> tasks ?s' (sp_task ?sp) = Some (the (tasks ?s' ''task-u''))
        \<and> id (the (tasks ?s' ''task-u'')) = sp_task ?sp
        \<and> executeSkill (handlers ?s') (sp_invocation ?sp) (sp_principal ?sp) = Inl ?err"
    by (simp add: server_defs skill_defs example_defs)
  have 6: "emitted ?s = [] \<and> emitted ?s' = [] \<and> sp_task ?sp = ''task-u''"
    by (simp add: server_defs example_defs)
  note inst = cancelTask_cancels [OF 1 2 3 4]
  note a = inst [THEN conjunct1]
  note b = inst [THEN conjunct2, THEN conjunct1]
  note c = inst [THEN conjunct2, THEN conjunct2, rule_format, OF 5]
  from a have A: "fst (cancelTask ''task-u'' ?s) = True
      \<and> map_option (\<lambda>t. state (status t)) (tasks (snd (cancelTask ''task-u'' ?s)) ''task-u'')
          = Some Failed"
    by simp
  from a b 6 have B: "map (\<lambda>(k, ev). (k, summary ev)) (emitted (snd (cancelTask ''task-u'' ?s)))
      = [(''task-u'', (TError, None, None, Some ''CANCELLED''))]"
    by simp
  from c 6 have C: "map (\<lambda>(k, ev). (k, summary ev)) (emitted (completeExecution 0 ?s'))
      = [(''task-u'', (TError, None, None, Some ''INVALID_REQUEST''))]"
    by (simp add: failureEvent_def)
  from A B C show ?thesis by blast
qed

text \<open>
  C2 as stated fails: a task cancelled while \<open>working\<close> ends in state \<open>failed\<close>, not
  in a state \<open>canceled\<close> distinct from \<open>failed\<close>; and when the handler of a task fails
  with an error of code \<open>CANCELLED\<close>, the events published and the state of the task
  are the same as when the task is cancelled.
\<close>

theorem cancel_state_counterexample:
  "map_option (\<lambda>t. state (status t))
     (tasks (run [Create (exRequest ''get_signals'' None) None] (exServer None)) ''task-u'')
     = Some Working
   \<and> map_option (\<lambda>t. state (status t))
       (tasks (run [Create (exRequest ''get_signals'' None) None, Cancel ''task-u'']
          (exServer None)) ''task-u'')
     \<noteq> Some Canceled
   \<and> emitted (run [Create (exRequest ''get_signals'' None) None, Cancel ''task-u'']
        (exThrowing (AdcpError ''CANCELLED'' ''Task was cancelled'')))
     = emitted (run [Create (exRequest ''get_signals'' None) None, ExecutionCompletes 0]
        (exThrowing (AdcpError ''CANCELLED'' ''Task was cancelled'')))
   \<and> map_option (\<lambda>t. state (status t))
       (tasks (run [Create (exRequest ''get_signals'' None) None, Cancel ''task-u'']
          (exThrowing (AdcpError ''CANCELLED'' ''Task was cancelled''))) ''task-u'')
     = map_option (\<lambda>t. state (status t))
       (tasks (run [Create (exRequest ''get_signals'' None) None, ExecutionCompletes 0]
          (exThrowing (AdcpError ''CANCELLED'' ''Task was cancelled''))) ''task-u'')"
  by (simp add: server_defs skill_defs example_defs emitEvent_eq)

end
